theory Spec2Isabelle
  imports Complex_Main "HOL-Library.Char_ord" "HOL-Library.List_Lexorder" "HOL-Library.Multiset"
begin

section \<open>Data model (lib/storage.ts)\<close>

text \<open>
  A calendar date string \<open>YYYY-MM-DD\<close> is represented by its day number (days since
  1970-01-01), an instant (\<open>Date\<close>, ISO timestamp) by its milliseconds since the epoch.
  On four-digit years the string operations the code applies to date strings are the
  operations on day numbers used below: \<open>===\<close> and \<open>includes\<close> are equality, the default
  \<open>sort()\<close> is the ascending numeric order, \<open>new Date(s).getTime()\<close> is UTC midnight of the
  day, and \<open>toISOString().split("T")[0]\<close> is the UTC day of an instant.
\<close>

record BrushingEntry =
  entry_id :: string
  date :: int
  timestamp :: int
  confirmed :: bool
  reminderTime :: "string option"

text \<open>\<open>Partial<BrushingEntry>\<close>: \<open>None\<close> is an absent key.\<close>

record BrushingEntry_Partial =
  p_entry_id :: "string option"
  p_date :: "int option"
  p_timestamp :: "int option"
  p_confirmed :: "bool option"
  p_reminderTime :: "string option option"

datatype TimeFormat = H12 | H24

record AppSettings =
  reminderTimes :: "string list"
  soundEnabled :: bool
  volume :: rat
  selectedSound :: string
  alarmDelay :: int
  timeFormat :: TimeFormat

record AppSettings_Partial =
  p_reminderTimes :: "string list option"
  p_soundEnabled :: "bool option"
  p_volume :: "rat option"
  p_selectedSound :: "string option"
  p_alarmDelay :: "int option"
  p_timeFormat :: "TimeFormat option"

record BrushingStats =
  totalDays :: nat
  brushedDays :: nat
  currentStreak :: nat
  longestStreak :: nat
  averagePerWeek :: rat
  lastBrushed :: "int option"

definition DEFAULT_SETTINGS :: AppSettings where
  "DEFAULT_SETTINGS =
     \<lparr>reminderTimes = [''08:00'', ''20:00''], soundEnabled = True, volume = 7 / 10,
      selectedSound = ''chime'', alarmDelay = 30, timeFormat = H24\<rparr>"

text \<open>Object spread \<open>{...e, ...updates}\<close>: every key present in \<open>updates\<close> wins.\<close>

definition spread_entry :: "BrushingEntry \<Rightarrow> BrushingEntry_Partial \<Rightarrow> BrushingEntry" where
  "spread_entry e u =
     \<lparr>entry_id = (case p_entry_id u of None \<Rightarrow> entry_id e | Some v \<Rightarrow> v),
      date = (case p_date u of None \<Rightarrow> date e | Some v \<Rightarrow> v),
      timestamp = (case p_timestamp u of None \<Rightarrow> timestamp e | Some v \<Rightarrow> v),
      confirmed = (case p_confirmed u of None \<Rightarrow> confirmed e | Some v \<Rightarrow> v),
      reminderTime = (case p_reminderTime u of None \<Rightarrow> reminderTime e | Some v \<Rightarrow> v)\<rparr>"

definition spread_settings :: "AppSettings \<Rightarrow> AppSettings_Partial \<Rightarrow> AppSettings" where
  "spread_settings s u =
     \<lparr>reminderTimes = (case p_reminderTimes u of None \<Rightarrow> reminderTimes s | Some v \<Rightarrow> v),
      soundEnabled = (case p_soundEnabled u of None \<Rightarrow> soundEnabled s | Some v \<Rightarrow> v),
      volume = (case p_volume u of None \<Rightarrow> volume s | Some v \<Rightarrow> v),
      selectedSound = (case p_selectedSound u of None \<Rightarrow> selectedSound s | Some v \<Rightarrow> v),
      alarmDelay = (case p_alarmDelay u of None \<Rightarrow> alarmDelay s | Some v \<Rightarrow> v),
      timeFormat = (case p_timeFormat u of None \<Rightarrow> timeFormat s | Some v \<Rightarrow> v)\<rparr>"

definition partial_of_settings :: "AppSettings \<Rightarrow> AppSettings_Partial" where
  "partial_of_settings s =
     \<lparr>p_reminderTimes = Some (reminderTimes s), p_soundEnabled = Some (soundEnabled s),
      p_volume = Some (volume s), p_selectedSound = Some (selectedSound s),
      p_alarmDelay = Some (alarmDelay s), p_timeFormat = Some (timeFormat s)\<rparr>"

section \<open>The platform: clock and local store\<close>

text \<open>
  \<open>new Date()\<close> reads a clock: the instant \<open>now_ms\<close> and the zone of the browser. The
  zone is a standard offset of \<open>tz_minutes\<close> east of UTC and one hour more while daylight
  saving is in effect: \<open>dst_utc\<close> says so for a UTC instant, \<open>dst_local\<close> for a local time
  value (it also decides how a skipped or repeated local time is read). All reads of the
  clock within one call see the same instant.
\<close>

record clock =
  now_ms :: int
  tz_minutes :: int
  dst_utc :: "int \<Rightarrow> bool"
  dst_local :: "int \<Rightarrow> bool"

definition MS_PER_DAY :: int where
  "MS_PER_DAY = 24 * 60 * 60 * 1000"

text \<open>
  The abstract operations of the language standard: \<open>LocalTZA(t, isUTC)\<close> is the offset of
  the zone in milliseconds, \<open>LocalTime(t) = t + LocalTZA(t, true)\<close> and
  \<open>UTC(t) = t - LocalTZA(t, false)\<close>.
\<close>

definition LocalTZA :: "clock \<Rightarrow> int \<Rightarrow> bool \<Rightarrow> int" where
  "LocalTZA clk t isUTC =
     tz_minutes clk * 60000 +
     (if (if isUTC then dst_utc clk t else dst_local clk t) then 3600000 else 0)"

definition LocalTime :: "clock \<Rightarrow> int \<Rightarrow> int" where
  "LocalTime clk t = t + LocalTZA clk t True"

definition UTC :: "clock \<Rightarrow> int \<Rightarrow> int" where
  "UTC clk t = t - LocalTZA clk t False"

text \<open>
  \<open>d.setDate(d.getDate() + n)\<close> on the instant \<open>t\<close>: the same local time of day, \<open>n\<close>
  local calendar days later (earlier for a negative \<open>n\<close>), read back as an instant.
\<close>

definition setDate_add :: "clock \<Rightarrow> int \<Rightarrow> int \<Rightarrow> int" where
  "setDate_add clk t n = UTC clk (LocalTime clk t + n * MS_PER_DAY)"

text \<open>\<open>d.toISOString().split("T")[0]\<close>: the UTC calendar day of the instant.\<close>

definition toISODate :: "int \<Rightarrow> int" where
  "toISODate t = t div MS_PER_DAY"

text \<open>The calendar day that \<open>getFullYear/getMonth/getDate\<close> show: the local one.\<close>

definition localDate :: "clock \<Rightarrow> int" where
  "localDate clk = LocalTime clk (now_ms clk) div MS_PER_DAY"

text \<open>\<open>new Date("YYYY-MM-DD").getTime()\<close>: a date-only string is UTC midnight.\<close>

definition Date_of_day :: "int \<Rightarrow> int" where
  "Date_of_day d = d * MS_PER_DAY"

datatype js_error = SecurityError | QuotaExceededError | SyntaxError | TypeError

text \<open>
  What \<open>localStorage\<close> holds under one key: nothing (\<open>getItem\<close> gives \<open>null\<close>), a string
  that \<open>JSON.parse\<close> rejects, or a string that parses to a value of the expected shape.
  The store as a whole may refuse every access (\<open>blocked\<close>, a \<open>SecurityError\<close>) and may
  refuse writes (\<open>quota_exceeded\<close>, a \<open>QuotaExceededError\<close> of \<open>setItem\<close>).
\<close>

datatype 'a item = Absent | Unparsable | Parsed 'a

record localStorage =
  zahnputz_entries :: "BrushingEntry list item"
  zahnputz_settings :: "AppSettings_Partial item"
  blocked :: bool
  quota_exceeded :: bool

definition getItem :: "localStorage \<Rightarrow> (localStorage \<Rightarrow> 'a item) \<Rightarrow> js_error + 'a item" where
  "getItem ls key = (if blocked ls then Inl SecurityError else Inr (key ls))"

definition JSON_parse :: "'a item \<Rightarrow> js_error + 'a" where
  "JSON_parse data = (case data of Parsed v \<Rightarrow> Inr v | _ \<Rightarrow> Inl SyntaxError)"

definition setItem_entries :: "localStorage \<Rightarrow> BrushingEntry list \<Rightarrow> js_error + localStorage" where
  "setItem_entries ls v =
     (if blocked ls then Inl SecurityError
      else if quota_exceeded ls then Inl QuotaExceededError
      else Inr (ls\<lparr>zahnputz_entries := Parsed v\<rparr>))"

definition setItem_settings :: "localStorage \<Rightarrow> AppSettings \<Rightarrow> js_error + localStorage" where
  "setItem_settings ls v =
     (if blocked ls then Inl SecurityError
      else if quota_exceeded ls then Inl QuotaExceededError
      else Inr (ls\<lparr>zahnputz_settings := Parsed (partial_of_settings v)\<rparr>))"

definition removeItem_entries :: "localStorage \<Rightarrow> js_error + localStorage" where
  "removeItem_entries ls =
     (if blocked ls then Inl SecurityError else Inr (ls\<lparr>zahnputz_entries := Absent\<rparr>))"

section \<open>BrushingStorage\<close>

definition getAllEntries :: "localStorage \<Rightarrow> BrushingEntry list" where
  "getAllEntries ls =
     (case getItem ls zahnputz_entries of
        Inl error \<Rightarrow> []
      | Inr Absent \<Rightarrow> []
      | Inr data \<Rightarrow> (case JSON_parse data of Inl error \<Rightarrow> [] | Inr v \<Rightarrow> v))"

text \<open>\<open>crypto.randomUUID()\<close> is the argument \<open>uuid\<close>; the \<open>id\<close> of \<open>entry\<close> is not read.\<close>

definition insertEntry ::
  "localStorage \<Rightarrow> BrushingEntry \<Rightarrow> string \<Rightarrow> js_error + BrushingEntry \<times> localStorage" where
  "insertEntry ls entry uuid =
     (let entries = getAllEntries ls;
          newEntry = entry\<lparr>entry_id := uuid\<rparr>
      in case setItem_entries ls (entries @ [newEntry]) of
           Inl error \<Rightarrow> Inl error
         | Inr ls' \<Rightarrow> Inr (newEntry, ls'))"

text \<open>\<open>entries.findIndex(p)\<close>, with \<open>None\<close> for \<open>-1\<close>.\<close>

fun findIndex :: "('a \<Rightarrow> bool) \<Rightarrow> 'a list \<Rightarrow> nat option" where
  "findIndex p [] = None"
| "findIndex p (x # xs) =
     (if p x then Some 0 else (case findIndex p xs of None \<Rightarrow> None | Some i \<Rightarrow> Some (Suc i)))"

definition updateEntry ::
  "localStorage \<Rightarrow> string \<Rightarrow> BrushingEntry_Partial \<Rightarrow> js_error + bool \<times> localStorage" where
  "updateEntry ls ident updates =
     (let entries = getAllEntries ls
      in case findIndex (\<lambda>entry. entry_id entry = ident) entries of
           None \<Rightarrow> Inr (False, ls)
         | Some index \<Rightarrow>
             (case setItem_entries ls (entries[index := spread_entry (entries ! index) updates]) of
                Inl error \<Rightarrow> Inl error
              | Inr ls' \<Rightarrow> Inr (True, ls')))"

definition getEntriesByDateRange :: "localStorage \<Rightarrow> int \<Rightarrow> int \<Rightarrow> BrushingEntry list" where
  "getEntriesByDateRange ls startDate endDate =
     filter (\<lambda>entry. date entry \<ge> startDate \<and> date entry \<le> endDate) (getAllEntries ls)"

definition getEntryByDate :: "localStorage \<Rightarrow> int \<Rightarrow> BrushingEntry option" where
  "getEntryByDate ls d = find (\<lambda>entry. date entry = d) (getAllEntries ls)"

definition getTodayDateString :: "clock \<Rightarrow> int" where
  "getTodayDateString clk = localDate clk"

definition hasBrushedToday :: "localStorage \<Rightarrow> clock \<Rightarrow> bool" where
  "hasBrushedToday ls clk =
     (case getEntryByDate ls (getTodayDateString clk) of None \<Rightarrow> False | Some entry \<Rightarrow> confirmed entry)"

definition confirmBrushingToday ::
  "localStorage \<Rightarrow> clock \<Rightarrow> string \<Rightarrow> js_error + BrushingEntry \<times> localStorage" where
  "confirmBrushingToday ls clk uuid =
     (let today = getTodayDateString clk
      in case getEntryByDate ls today of
           Some existing \<Rightarrow>
             (case updateEntry ls (entry_id existing)
                     \<lparr>p_entry_id = None, p_date = None, p_timestamp = Some (now_ms clk),
                      p_confirmed = Some True, p_reminderTime = None\<rparr> of
                Inl error \<Rightarrow> Inl error
              | Inr (_, ls') \<Rightarrow>
                  Inr (existing\<lparr>confirmed := True, timestamp := now_ms clk\<rparr>, ls'))
         | None \<Rightarrow>
             insertEntry ls
               \<lparr>entry_id = [], date = today, timestamp = now_ms clk, confirmed = True,
                reminderTime = None\<rparr> uuid)"

definition deleteEntry :: "localStorage \<Rightarrow> string \<Rightarrow> js_error + bool \<times> localStorage" where
  "deleteEntry ls ident =
     (let entries = getAllEntries ls;
          filtered = filter (\<lambda>entry. entry_id entry \<noteq> ident) entries
      in if length filtered = length entries then Inr (False, ls)
         else (case setItem_entries ls filtered of
                 Inl error \<Rightarrow> Inl error
               | Inr ls' \<Rightarrow> Inr (True, ls')))"

definition clearAllEntries :: "localStorage \<Rightarrow> js_error + localStorage" where
  "clearAllEntries ls = removeItem_entries ls"

section \<open>SettingsStorage\<close>

definition getSettings :: "localStorage \<Rightarrow> AppSettings" where
  "getSettings ls =
     (case getItem ls zahnputz_settings of
        Inl error \<Rightarrow> DEFAULT_SETTINGS
      | Inr Absent \<Rightarrow> DEFAULT_SETTINGS
      | Inr data \<Rightarrow>
          (case JSON_parse data of
             Inl error \<Rightarrow> DEFAULT_SETTINGS
           | Inr v \<Rightarrow> spread_settings DEFAULT_SETTINGS v))"

definition updateSettings :: "localStorage \<Rightarrow> AppSettings_Partial \<Rightarrow> js_error + localStorage" where
  "updateSettings ls updates =
     (let current = getSettings ls;
          updated = spread_settings current updates
      in setItem_settings ls updated)"

definition resetSettings :: "localStorage \<Rightarrow> js_error + localStorage" where
  "resetSettings ls = setItem_settings ls DEFAULT_SETTINGS"

section \<open>BrushingAnalytics\<close>

text \<open>
  The \<open>while (true)\<close> loop of \<open>getStats\<close>: \<open>checkDate\<close> starts at the current instant
  and moves back one local calendar day (\<open>setDate(getDate() - 1)\<close>) while its UTC date
  string is among the confirmed dates. A step goes back by 23, 24 or 25 hours, so the
  loop ends.
\<close>

function currentStreak_loop :: "clock \<Rightarrow> int list \<Rightarrow> int \<Rightarrow> nat \<Rightarrow> nat" where
  "currentStreak_loop clk sortedDates checkDate streak =
     (if toISODate checkDate \<in> set sortedDates
      then currentStreak_loop clk sortedDates (setDate_add clk checkDate (- 1)) (Suc streak)
      else streak)"
  by pat_completeness auto
termination
proof (relation "measure (\<lambda>(clk, sortedDates, checkDate, streak).
                   nat (checkDate - Min (set sortedDates) * MS_PER_DAY + 1))")
  show "wf (measure (\<lambda>(clk, sortedDates, checkDate, streak).
                   nat (checkDate - Min (set sortedDates) * MS_PER_DAY + 1)))"
    by simp
next
  fix clk :: clock and sortedDates :: "int list" and checkDate :: int and streak :: nat
  assume mem: "toISODate checkDate \<in> set sortedDates"
  then have "Min (set sortedDates) \<le> checkDate div MS_PER_DAY"
    by (simp add: toISODate_def)
  then have "Min (set sortedDates) * MS_PER_DAY \<le> (checkDate div MS_PER_DAY) * MS_PER_DAY"
    by (simp add: MS_PER_DAY_def)
  also have "\<dots> \<le> checkDate"
    by (simp add: MS_PER_DAY_def)
  finally have low: "Min (set sortedDates) * MS_PER_DAY \<le> checkDate" .
  have "setDate_add clk checkDate (- 1) \<le> checkDate - 82800000"
    by (simp add: setDate_add_def UTC_def LocalTime_def LocalTZA_def MS_PER_DAY_def)
  then have "setDate_add clk checkDate (- 1) < checkDate"
    by simp
  with low show "((clk, sortedDates, setDate_add clk checkDate (- 1), Suc streak),
                  (clk, sortedDates, checkDate, streak))
      \<in> measure (\<lambda>(clk, sortedDates, checkDate, streak).
                   nat (checkDate - Min (set sortedDates) * MS_PER_DAY + 1))"
    by simp
qed

declare currentStreak_loop.simps [simp del]

text \<open>
  The \<open>for\<close> loop over \<open>allDates\<close>, as a recursion over the dates from index \<open>i\<close> on,
  with the two counters as arguments.
\<close>

fun longestStreak_loop :: "int list \<Rightarrow> nat \<Rightarrow> nat \<Rightarrow> nat" where
  "longestStreak_loop [] tempStreak longest = longest"
| "longestStreak_loop [currentDate] tempStreak longest = max longest (Suc tempStreak)"
| "longestStreak_loop (currentDate # nextDate # rest) tempStreak longest =
     (if Date_of_day nextDate - Date_of_day currentDate > 24 * 60 * 60 * 1000
      then longestStreak_loop (nextDate # rest) 0 (max longest (Suc tempStreak))
      else longestStreak_loop (nextDate # rest) (Suc tempStreak) longest)"

text \<open>\<open>Math.round\<close>: the nearest integer, a half rounded up.\<close>

definition Math_round :: "rat \<Rightarrow> int" where
  "Math_round x = \<lfloor>x + 1 / 2\<rfloor>"

text \<open>
  \<open>getStats\<close>. The quotients are taken in the rationals: \<open>n * 7 / 3\<close> is never within a
  third of a half-integer, so \<open>Math.round\<close> on the double is the integer computed here, and
  the double returned is the one nearest to the rational \<open>averagePerWeek\<close>. The stable
  \<open>sort\<close> by descending timestamp is \<open>sort_key\<close> on the negated instant.
\<close>

definition getStats :: "localStorage \<Rightarrow> clock \<Rightarrow> BrushingStats" where
  "getStats ls clk =
     (let entries = getAllEntries ls;
          confirmedEntries = filter confirmed entries
      in if length confirmedEntries = 0
         then \<lparr>totalDays = 0, brushedDays = 0, currentStreak = 0, longestStreak = 0,
               averagePerWeek = 0, lastBrushed = None\<rparr>
         else
           let sortedDates = rev (sort (map date confirmedEntries));
               streak = currentStreak_loop clk sortedDates (now_ms clk) 0;
               allDates = sort (map date confirmedEntries);
               longest = longestStreak_loop allDates 0 0;
               thirtyDaysAgo = setDate_add clk (now_ms clk) (- 30);
               recentEntries =
                 filter (\<lambda>entry. Date_of_day (date entry) \<ge> thirtyDaysAgo) confirmedEntries;
               average = (of_nat (length recentEntries) / 30) * 7;
               last = (case sort_key (\<lambda>entry. - timestamp entry) confirmedEntries of
                         [] \<Rightarrow> None
                       | e # _ \<Rightarrow> Some (date e))
           in \<lparr>totalDays = length entries, brushedDays = length confirmedEntries,
               currentStreak = streak, longestStreak = longest,
               averagePerWeek = of_int (Math_round (average * 10)) / 10,
               lastBrushed = last\<rparr>)"

subsection \<open>The longest streak as the specification words it\<close>

text \<open>
  The specification's description of \<open>longestStreak\<close>, kept apart from the code: scan the
  confirmed dates in ascending order, increment a run counter for each date, reset it to
  zero whenever the gap to the next confirmed date exceeds one day, and take the maximum
  run length seen. \<open>run_lengths\<close> lists the counter after each increment.
\<close>

fun run_lengths :: "int list \<Rightarrow> nat \<Rightarrow> nat list" where
  "run_lengths [] run = []"
| "run_lengths [d] run = [Suc run]"
| "run_lengths (d # d' # ds) run =
     Suc run # run_lengths (d' # ds) (if d' - d > 1 then 0 else Suc run)"

definition longestStreak_spec :: "int list \<Rightarrow> nat" where
  "longestStreak_spec confirmedDates = foldr max (run_lengths (sort confirmedDates) 0) 0"

section \<open>Strings and numbers of the platform\<close>

text \<open>
  A JavaScript number that the code below can meet is a natural number or \<open>NaN\<close>
  (\<open>None\<close>). \<open>Number\<close> and \<open>parseInt\<close> are modelled on strings of decimal digits, where
  they read the decimal value (\<open>Number("")\<close> is \<open>0\<close>, \<open>parseInt\<close> reads the leading digits);
  every other string is mapped to \<open>NaN\<close> here, so signs, fractions, exponents and
  surrounding blanks are outside the model.
\<close>

definition is_digit :: "char \<Rightarrow> bool" where
  "is_digit c = (c \<in> set ''0123456789'')"

definition digit_val :: "char \<Rightarrow> nat" where
  "digit_val c = of_char c - 48"

definition digit_char :: "nat \<Rightarrow> char" where
  "digit_char n = ''0123456789'' ! (n mod 10)"

definition decimal :: "string \<Rightarrow> nat" where
  "decimal s = foldl (\<lambda>n c. 10 * n + digit_val c) 0 s"

definition Number :: "string \<Rightarrow> nat option" where
  "Number s = (if list_all is_digit s then Some (decimal s) else None)"

definition parseInt :: "string \<Rightarrow> nat option" where
  "parseInt s = (let ds = takeWhile is_digit s in if ds = [] then None else Some (decimal ds))"

fun toString :: "nat \<Rightarrow> string" where
  "toString n = (if n < 10 then [digit_char n] else toString (n div 10) @ [digit_char (n mod 10)])"

declare toString.simps [simp del]

definition num_toString :: "nat option \<Rightarrow> string" where
  "num_toString x = (case x of None \<Rightarrow> ''NaN'' | Some n \<Rightarrow> toString n)"

definition padStart :: "nat \<Rightarrow> char \<Rightarrow> string \<Rightarrow> string" where
  "padStart n c s = replicate (n - length s) c @ s"

text \<open>\<open>s.split(sep)\<close> for a separator of one character.\<close>

fun split :: "char \<Rightarrow> string \<Rightarrow> string list" where
  "split sep [] = [[]]"
| "split sep (c # cs) =
     (if c = sep then [] # split sep cs
      else (case split sep cs of [] \<Rightarrow> [[c]] | p # ps \<Rightarrow> (c # p) # ps))"

definition toUpperCase :: "string \<Rightarrow> string" where
  "toUpperCase s =
     map (\<lambda>c. case map_of (zip ''abcdefghijklmnopqrstuvwxyz'' ''ABCDEFGHIJKLMNOPQRSTUVWXYZ'') c of
                None \<Rightarrow> c
              | Some u \<Rightarrow> u) s"

text \<open>The class \<open>\s\<close> on one-byte characters.\<close>

definition is_space :: "char \<Rightarrow> bool" where
  "is_space c = (c \<in> set [CHR '' '', CHR 0x09, CHR 0x0A, CHR 0x0B, CHR 0x0C, CHR 0x0D])"

section \<open>lib/timeFormat.ts\<close>

text \<open>
  \<open>[hours, minutes] = time24.split(":").map(Number)\<close>: a missing second part leaves
  \<open>minutes\<close> undefined, and \<open>minutes.toString()\<close> then throws a \<open>TypeError\<close>. A comparison
  with \<open>NaN\<close> is false.
\<close>

definition convertTo12Hour :: "string \<Rightarrow> js_error + string" where
  "convertTo12Hour time24 =
     (case map Number (split CHR '':'' time24) of
        hours # minutes # _ \<Rightarrow>
          (let period = (if (case hours of None \<Rightarrow> False | Some h \<Rightarrow> h \<ge> 12)
                         then ''PM'' else ''AM'');
               hours12 = (if hours = Some 0 then Some 12
                          else if (case hours of None \<Rightarrow> False | Some h \<Rightarrow> h > 12)
                          then map_option (\<lambda>h. h - 12) hours
                          else hours)
           in Inr (num_toString hours12 @ '':'' @ padStart 2 CHR ''0'' (num_toString minutes)
                   @ '' '' @ period))
      | _ \<Rightarrow> Inl TypeError)"

text \<open>
  The string \<open>`${hours24}:${minutes}`\<close> that \<open>formatCurrentTime\<close> builds from an hour
  and a minute, both through \<open>toString().padStart(2, "0")\<close>: the zero-padded \<open>HH:MM\<close>.
\<close>

definition time24 :: "nat \<Rightarrow> nat \<Rightarrow> string" where
  "time24 hours minutes =
     padStart 2 CHR ''0'' (toString hours) @ '':'' @ padStart 2 CHR ''0'' (toString minutes)"

text \<open>
  \<open>time12.match(/^(\d{1,2}):(\d{2})\s*(AM|PM)$/i)\<close>: the three groups of a match. After
  one or two digits the next character must be the colon, so the greedy \<open>\d{1,2}\<close> takes
  every leading digit.
\<close>

definition match_time12 :: "string \<Rightarrow> (string \<times> string \<times> string) option" where
  "match_time12 time12 =
     (let hoursStr = takeWhile is_digit time12;
          rest = dropWhile is_digit time12
      in if length hoursStr < 1 \<or> length hoursStr > 2 then None
         else (case rest of
                 c # m1 # m2 # rest' \<Rightarrow>
                   (let period = dropWhile is_space rest'
                    in if c = CHR '':'' \<and> is_digit m1 \<and> is_digit m2
                          \<and> toUpperCase period \<in> set [''AM'', ''PM'']
                       then Some (hoursStr, [m1, m2], period)
                       else None)
               | _ \<Rightarrow> None))"

definition convertTo24Hour :: "string \<Rightarrow> string" where
  "convertTo24Hour time12 =
     (case match_time12 time12 of
        None \<Rightarrow> time12
      | Some (hoursStr, minutes, period) \<Rightarrow>
          (let hours = parseInt hoursStr;
               hours' = (if toUpperCase period = ''AM'' \<and> hours = Some 12 then Some 0
                         else if toUpperCase period = ''PM'' \<and> hours \<noteq> Some 12
                         then map_option (\<lambda>h. h + 12) hours
                         else hours)
           in padStart 2 CHR ''0'' (num_toString hours') @ '':'' @ minutes))"

section \<open>hooks/useReminders.ts\<close>

text \<open>A \<open>Date\<close> object holds an instant or is an \<open>Invalid Date\<close>.\<close>

datatype js_date = Invalid_Date | Date int

text \<open>
  \<open>d.setHours(hours, minutes, 0, 0)\<close> on the instant \<open>d\<close>: the local day of \<open>d\<close> at the
  wall-clock time given, read back as an instant; \<open>NaN\<close> gives an \<open>Invalid Date\<close>.
\<close>

definition setHours :: "clock \<Rightarrow> int \<Rightarrow> nat option \<Rightarrow> nat option \<Rightarrow> js_date" where
  "setHours clk d hours minutes =
     (case (hours, minutes) of
        (Some h, Some m) \<Rightarrow>
          Date (UTC clk ((LocalTime clk d div MS_PER_DAY) * MS_PER_DAY
                         + int h * 3600000 + int m * 60000))
      | _ \<Rightarrow> Invalid_Date)"

text \<open>
  \<open>new Date(now.getFullYear(), now.getMonth(), now.getDate())\<close>: midnight of the local
  day of now, read back as an instant.
\<close>

definition local_midnight :: "clock \<Rightarrow> int" where
  "local_midnight clk = UTC clk (localDate clk * MS_PER_DAY)"

definition parse_time :: "string \<Rightarrow> nat option \<times> nat option" where
  "parse_time timeStr =
     (case map Number (split CHR '':'' timeStr) of
        [] \<Rightarrow> (None, None)
      | [hours] \<Rightarrow> (hours, None)
      | hours # minutes # _ \<Rightarrow> (hours, minutes))"

text \<open>The \<open>for\<close> loop of \<open>calculateNextReminder\<close> over the sorted times.\<close>

fun next_today :: "clock \<Rightarrow> int \<Rightarrow> int \<Rightarrow> string list \<Rightarrow> js_date option" where
  "next_today clk today now [] = None"
| "next_today clk today now (timeStr # rest) =
     (let (hours, minutes) = parse_time timeStr;
          reminder = setHours clk today hours minutes
      in if (case reminder of Invalid_Date \<Rightarrow> False | Date t \<Rightarrow> t > now)
         then Some reminder
         else next_today clk today now rest)"

text \<open>
  \<open>calculateNextReminder\<close>. \<open>settings.reminderTimes.sort()\<close> is the default sort of
  strings by code units; that it also reorders the array held in the settings is not
  modelled. \<open>sort()[0]\<close> is read only after the list was found non-empty.
\<close>

definition calculateNextReminder :: "AppSettings \<Rightarrow> clock \<Rightarrow> js_date option" where
  "calculateNextReminder settings clk =
     (if length (reminderTimes settings) = 0 then None
      else
        let now = now_ms clk;
            today = local_midnight clk
        in case next_today clk today now (sort (reminderTimes settings)) of
             Some reminder \<Rightarrow> Some reminder
           | None \<Rightarrow>
               (let tomorrow = setDate_add clk today 1;
                    (hours, minutes) = parse_time (hd (sort (reminderTimes settings)))
                in Some (setHours clk tomorrow hours minutes)))"

subsection \<open>The instant of a configured time\<close>

text \<open>
  For the statement about \<open>calculateNextReminder\<close>: the instant at which the wall clock
  shows hour \<open>h\<close> and minute \<open>m\<close> on the day that starts at \<open>midnight\<close>, in a zone whose
  offset does not change during that day.
\<close>

definition at_time :: "int \<Rightarrow> nat \<times> nat \<Rightarrow> int" where
  "at_time midnight hm = midnight + int (fst hm) * 3600000 + int (snd hm) * 60000"

section \<open>Properties of the store operations\<close>

lemmas eval_store = confirmBrushingToday_def updateEntry_def insertEntry_def getEntryByDate_def
  getAllEntries_def getItem_def JSON_parse_def setItem_entries_def getTodayDateString_def
  localDate_def LocalTime_def UTC_def LocalTZA_def setDate_add_def MS_PER_DAY_def spread_entry_def
  Let_def


lemma setItem_entries_get:
  "setItem_entries ls v = Inr ls' \<Longrightarrow> getAllEntries ls' = v"
  by (auto simp: setItem_entries_def getAllEntries_def getItem_def JSON_parse_def split: if_splits)

lemma findIndex_Some:
  "findIndex p xs = Some i \<Longrightarrow> i < length xs \<and> p (xs ! i) \<and> (\<forall>j<i. \<not> p (xs ! j))"
proof (induction xs arbitrary: i)
  case Nil
  then show ?case by simp
next
  case (Cons x xs)
  show ?case
  proof (cases "p x")
    case True
    with Cons.prems show ?thesis by simp
  next
    case False
    with Cons.prems obtain k where k: "findIndex p xs = Some k" "i = Suc k"
      by (auto split: option.splits)
    from Cons.IH [OF k(1)] False k(2) show ?thesis
      by (auto simp: less_Suc_eq_0_disj)
  qed
qed

lemma findIndex_None: "findIndex p xs = None \<longleftrightarrow> (\<forall>x\<in>set xs. \<not> p x)"
  by (induction xs) (auto split: option.splits)

lemma spread_confirm:
  "spread_entry e \<lparr>p_entry_id = None, p_date = None, p_timestamp = Some t,
                      p_confirmed = Some True, p_reminderTime = None\<rparr> = e\<lparr>confirmed := True, timestamp := t\<rparr>"
  by (simp add: spread_entry_def)

lemma confirm_cases:
  assumes "confirmBrushingToday ls clk uuid = Inr (r, ls')"
  shows "(getEntryByDate ls (getTodayDateString clk) = None \<and>
          getAllEntries ls' = getAllEntries ls @
            [\<lparr>entry_id = uuid, date = getTodayDateString clk, timestamp = now_ms clk,
              confirmed = True, reminderTime = None\<rparr>]) \<or>
         (\<exists>existing i. getEntryByDate ls (getTodayDateString clk) = Some existing \<and>
            findIndex (\<lambda>entry. entry_id entry = entry_id existing) (getAllEntries ls) = Some i \<and>
            getAllEntries ls' =
              (getAllEntries ls)[i := (getAllEntries ls ! i)\<lparr>confirmed := True, timestamp := now_ms clk\<rparr>])"
proof (cases "getEntryByDate ls (getTodayDateString clk)")
  case None
  with assms show ?thesis
    by (auto simp: confirmBrushingToday_def insertEntry_def Let_def
             split: sum.splits dest: setItem_entries_get)
next
  case (Some existing)
  then have "existing \<in> set (getAllEntries ls)"
    by (auto simp: getEntryByDate_def find_Some_iff)
  then obtain i where i: "findIndex (\<lambda>entry. entry_id entry = entry_id existing) (getAllEntries ls) = Some i"
    using findIndex_None [of "\<lambda>entry. entry_id entry = entry_id existing" "getAllEntries ls"]
    by (cases "findIndex (\<lambda>entry. entry_id entry = entry_id existing) (getAllEntries ls)") auto
  with assms Some show ?thesis
    by (auto simp: confirmBrushingToday_def updateEntry_def Let_def spread_confirm
             split: sum.splits dest: setItem_entries_get)
qed






subsection \<open>C1: confirming twice on one day\<close>




subsection \<open>C9: what the mutators leave alone\<close>

lemma updateEntry_cases:
  assumes "updateEntry ls ident updates = Inr (b, ls')"
  shows "(findIndex (\<lambda>entry. entry_id entry = ident) (getAllEntries ls) = None \<and> ls' = ls) \<or>
         (\<exists>i. findIndex (\<lambda>entry. entry_id entry = ident) (getAllEntries ls) = Some i \<and>
              getAllEntries ls' = (getAllEntries ls)[i := spread_entry (getAllEntries ls ! i) updates])"
  using assms
  by (auto simp: updateEntry_def Let_def split: option.splits sum.splits dest: setItem_entries_get)

lemma insertEntry_entries:
  assumes "insertEntry ls entry uuid = Inr (r, ls')"
  shows "getAllEntries ls' = getAllEntries ls @ [r]" and "r = entry\<lparr>entry_id := uuid\<rparr>"
  using assms
  by (auto simp: insertEntry_def Let_def split: sum.splits dest: setItem_entries_get)

lemma confirm_frame:
  assumes ok: "confirmBrushingToday ls clk uuid = Inr (r, ls')"
      and dist: "distinct (map entry_id (getAllEntries ls))"
      and i: "i < length (getAllEntries ls)"
      and other: "date (getAllEntries ls ! i) \<noteq> getTodayDateString clk"
  shows "getAllEntries ls' ! i = getAllEntries ls ! i"
  using confirm_cases [OF ok]
proof (elim disjE conjE exE)
  assume "getAllEntries ls' = getAllEntries ls @
            [\<lparr>entry_id = uuid, date = getTodayDateString clk, timestamp = now_ms clk,
              confirmed = True, reminderTime = None\<rparr>]"
  with i show ?thesis by (simp add: nth_append)
next
  fix existing k
  assume some: "getEntryByDate ls (getTodayDateString clk) = Some existing"
    and idx: "findIndex (\<lambda>entry. entry_id entry = entry_id existing) (getAllEntries ls) = Some k"
    and new: "getAllEntries ls' =
              (getAllEntries ls)[k := (getAllEntries ls ! k)\<lparr>confirmed := True, timestamp := now_ms clk\<rparr>]"
  from some obtain j where j: "j < length (getAllEntries ls)" "existing = getAllEntries ls ! j"
      "date existing = getTodayDateString clk"
    by (auto simp: getEntryByDate_def find_Some_iff)
  from findIndex_Some [OF idx] have k: "k < length (getAllEntries ls)"
      "entry_id (getAllEntries ls ! k) = entry_id existing"
    by simp_all
  have "map entry_id (getAllEntries ls) ! k = map entry_id (getAllEntries ls) ! j"
    using j k by simp
  with dist j(1) k(1) have "k = j"
    by (simp only: nth_eq_iff_index_eq length_map)
  with j other have "i \<noteq> k" by auto
  with new show ?thesis by simp
qed

lemma confirm_keeps:
  assumes ok: "confirmBrushingToday ls clk uuid = Inr (r, ls')"
  shows "length (getAllEntries ls) \<le> length (getAllEntries ls')"
    and "i < length (getAllEntries ls) \<Longrightarrow>
           entry_id (getAllEntries ls' ! i) = entry_id (getAllEntries ls ! i) \<and>
           date (getAllEntries ls' ! i) = date (getAllEntries ls ! i)"
  using confirm_cases [OF ok]
  by (auto simp: nth_append nth_list_update dest!: findIndex_Some)

text \<open>
  Claim C9, amended: \<open>confirmBrushingToday\<close> never removes an entry (every stored entry
  keeps its position, id and date) and, when the stored ids are pairwise distinct, leaves
  every entry whose date is not today unchanged; \<open>updateEntry\<close> keeps the number of
  entries and leaves every entry with a different id unchanged; \<open>insertEntry\<close> only
  appends. So among the mutators only \<open>deleteEntry\<close> and \<open>clearAllEntries\<close> remove.
\<close>

theorem store_mutators_frame:
  "(confirmBrushingToday ls clk uuid = Inr (r, ls') \<longrightarrow>
      length (getAllEntries ls) \<le> length (getAllEntries ls') \<and>
      (\<forall>i<length (getAllEntries ls).
          entry_id (getAllEntries ls' ! i) = entry_id (getAllEntries ls ! i) \<and>
          date (getAllEntries ls' ! i) = date (getAllEntries ls ! i) \<and>
          (distinct (map entry_id (getAllEntries ls)) \<and>
           date (getAllEntries ls ! i) \<noteq> getTodayDateString clk \<longrightarrow>
             getAllEntries ls' ! i = getAllEntries ls ! i))) \<and>
   (updateEntry ls ident updates = Inr (b, ls2) \<longrightarrow>
      length (getAllEntries ls2) = length (getAllEntries ls) \<and>
      (\<forall>i<length (getAllEntries ls).
          entry_id (getAllEntries ls ! i) \<noteq> ident \<longrightarrow> getAllEntries ls2 ! i = getAllEntries ls ! i)) \<and>
   (insertEntry ls entry uuid3 = Inr (r3, ls3) \<longrightarrow> getAllEntries ls3 = getAllEntries ls @ [r3])"
proof (intro conjI impI allI)
  assume "confirmBrushingToday ls clk uuid = Inr (r, ls')"
  then show "length (getAllEntries ls) \<le> length (getAllEntries ls')"
    by (rule confirm_keeps(1))
next
  fix i
  assume "confirmBrushingToday ls clk uuid = Inr (r, ls')" "i < length (getAllEntries ls)"
  then show "entry_id (getAllEntries ls' ! i) = entry_id (getAllEntries ls ! i)"
    using confirm_keeps(2) by blast
next
  fix i
  assume "confirmBrushingToday ls clk uuid = Inr (r, ls')" "i < length (getAllEntries ls)"
  then show "date (getAllEntries ls' ! i) = date (getAllEntries ls ! i)"
    using confirm_keeps(2) by blast
next
  fix i
  assume "confirmBrushingToday ls clk uuid = Inr (r, ls')" "i < length (getAllEntries ls)"
    "distinct (map entry_id (getAllEntries ls)) \<and>
           date (getAllEntries ls ! i) \<noteq> getTodayDateString clk"
  then show "getAllEntries ls' ! i = getAllEntries ls ! i"
    using confirm_frame by blast
next
  assume "updateEntry ls ident updates = Inr (b, ls2)"
  from updateEntry_cases [OF this] show "length (getAllEntries ls2) = length (getAllEntries ls)"
    by auto
next
  fix i
  assume u: "updateEntry ls ident updates = Inr (b, ls2)" and i: "i < length (getAllEntries ls)"
    and ne: "entry_id (getAllEntries ls ! i) \<noteq> ident"
  from updateEntry_cases [OF u] show "getAllEntries ls2 ! i = getAllEntries ls ! i"
  proof (elim disjE conjE exE)
    assume "ls2 = ls" then show ?thesis by simp
  next
    fix k
    assume idx: "findIndex (\<lambda>entry. entry_id entry = ident) (getAllEntries ls) = Some k"
      and new: "getAllEntries ls2 = (getAllEntries ls)[k := spread_entry (getAllEntries ls ! k) updates]"
    from findIndex_Some [OF idx] ne have "i \<noteq> k" by auto
    with new show ?thesis by simp
  qed
next
  assume "insertEntry ls entry uuid3 = Inr (r3, ls3)"
  then show "getAllEntries ls3 = getAllEntries ls @ [r3]"
    by (rule insertEntry_entries(1))
qed


text \<open>
  Claim C9 as stated fails where two stored entries share an id: \<open>confirmBrushingToday\<close>
  finds today's entry by date but writes through \<open>updateEntry\<close> by id, so the first
  entry carrying that id is mutated. Here the entry of day 3 is changed on day 4 and
  today's entry stays unconfirmed in the store.
\<close>

theorem confirmBrushingToday_shared_id_counterexample:
  "confirmBrushingToday
       \<lparr>zahnputz_entries = Parsed
          [\<lparr>entry_id = ''x'', date = 3, timestamp = 10, confirmed = False, reminderTime = None\<rparr>,
           \<lparr>entry_id = ''x'', date = 4, timestamp = 20, confirmed = False, reminderTime = None\<rparr>],
        zahnputz_settings = Absent, blocked = False, quota_exceeded = False\<rparr>
       \<lparr>now_ms = 4 * 86400000 + 1000, tz_minutes = 0, dst_utc = (\<lambda>t. False), dst_local = (\<lambda>t. False)\<rparr> ''u'' =
     Inr (\<lparr>entry_id = ''x'', date = 4, timestamp = 4 * 86400000 + 1000, confirmed = True, reminderTime = None\<rparr>,
          \<lparr>zahnputz_entries = Parsed
             [\<lparr>entry_id = ''x'', date = 3, timestamp = 4 * 86400000 + 1000, confirmed = True, reminderTime = None\<rparr>,
              \<lparr>entry_id = ''x'', date = 4, timestamp = 20, confirmed = False, reminderTime = None\<rparr>],
           zahnputz_settings = Absent, blocked = False, quota_exceeded = False\<rparr>) \<and>
   getTodayDateString \<lparr>now_ms = 4 * 86400000 + 1000, tz_minutes = 0, dst_utc = (\<lambda>t. False), dst_local = (\<lambda>t. False)\<rparr> = 4 \<and>
   date (getAllEntries
       \<lparr>zahnputz_entries = Parsed
          [\<lparr>entry_id = ''x'', date = 3, timestamp = 10, confirmed = False, reminderTime = None\<rparr>,
           \<lparr>entry_id = ''x'', date = 4, timestamp = 20, confirmed = False, reminderTime = None\<rparr>],
        zahnputz_settings = Absent, blocked = False, quota_exceeded = False\<rparr> ! 0) = 3 \<and>
   getAllEntries
       \<lparr>zahnputz_entries = Parsed
          [\<lparr>entry_id = ''x'', date = 3, timestamp = 4 * 86400000 + 1000, confirmed = True, reminderTime = None\<rparr>,
           \<lparr>entry_id = ''x'', date = 4, timestamp = 20, confirmed = False, reminderTime = None\<rparr>],
        zahnputz_settings = Absent, blocked = False, quota_exceeded = False\<rparr> ! 0 \<noteq>
   getAllEntries
       \<lparr>zahnputz_entries = Parsed
          [\<lparr>entry_id = ''x'', date = 3, timestamp = 10, confirmed = False, reminderTime = None\<rparr>,
           \<lparr>entry_id = ''x'', date = 4, timestamp = 20, confirmed = False, reminderTime = None\<rparr>],
        zahnputz_settings = Absent, blocked = False, quota_exceeded = False\<rparr> ! 0"
  by (simp add: eval_store)

text \<open>
  Witness for C9: a store with entries of days 3 and 4, on day 4.
\<close>

theorem store_mutators_frame_witness:
  "confirmBrushingToday
       \<lparr>zahnputz_entries = Parsed
          [\<lparr>entry_id = ''a'', date = 3, timestamp = 10, confirmed = False, reminderTime = None\<rparr>,
           \<lparr>entry_id = ''b'', date = 4, timestamp = 20, confirmed = False, reminderTime = None\<rparr>],
        zahnputz_settings = Absent, blocked = False, quota_exceeded = False\<rparr>
       \<lparr>now_ms = 4 * 86400000 + 1000, tz_minutes = 0, dst_utc = (\<lambda>t. False), dst_local = (\<lambda>t. False)\<rparr> ''u'' =
     Inr (\<lparr>entry_id = ''b'', date = 4, timestamp = 4 * 86400000 + 1000, confirmed = True, reminderTime = None\<rparr>,
          \<lparr>zahnputz_entries = Parsed
             [\<lparr>entry_id = ''a'', date = 3, timestamp = 10, confirmed = False, reminderTime = None\<rparr>,
              \<lparr>entry_id = ''b'', date = 4, timestamp = 4 * 86400000 + 1000, confirmed = True, reminderTime = None\<rparr>],
           zahnputz_settings = Absent, blocked = False, quota_exceeded = False\<rparr>) \<and>
   updateEntry
       \<lparr>zahnputz_entries = Parsed
          [\<lparr>entry_id = ''a'', date = 3, timestamp = 10, confirmed = False, reminderTime = None\<rparr>,
           \<lparr>entry_id = ''b'', date = 4, timestamp = 20, confirmed = False, reminderTime = None\<rparr>],
        zahnputz_settings = Absent, blocked = False, quota_exceeded = False\<rparr>
       ''b''
       \<lparr>p_entry_id = None, p_date = Some 5, p_timestamp = None, p_confirmed = None, p_reminderTime = None\<rparr> =
     Inr (True,
          \<lparr>zahnputz_entries = Parsed
             [\<lparr>entry_id = ''a'', date = 3, timestamp = 10, confirmed = False, reminderTime = None\<rparr>,
              \<lparr>entry_id = ''b'', date = 5, timestamp = 20, confirmed = False, reminderTime = None\<rparr>],
           zahnputz_settings = Absent, blocked = False, quota_exceeded = False\<rparr>) \<and>
   insertEntry
       \<lparr>zahnputz_entries = Parsed
          [\<lparr>entry_id = ''a'', date = 3, timestamp = 10, confirmed = False, reminderTime = None\<rparr>,
           \<lparr>entry_id = ''b'', date = 4, timestamp = 20, confirmed = False, reminderTime = None\<rparr>],
        zahnputz_settings = Absent, blocked = False, quota_exceeded = False\<rparr>
       \<lparr>entry_id = [], date = 3, timestamp = 30, confirmed = True, reminderTime = None\<rparr> ''c'' =
     Inr (\<lparr>entry_id = ''c'', date = 3, timestamp = 30, confirmed = True, reminderTime = None\<rparr>,
          \<lparr>zahnputz_entries = Parsed
             [\<lparr>entry_id = ''a'', date = 3, timestamp = 10, confirmed = False, reminderTime = None\<rparr>,
              \<lparr>entry_id = ''b'', date = 4, timestamp = 20, confirmed = False, reminderTime = None\<rparr>,
              \<lparr>entry_id = ''c'', date = 3, timestamp = 30, confirmed = True, reminderTime = None\<rparr>],
           zahnputz_settings = Absent, blocked = False, quota_exceeded = False\<rparr>) \<and>
   (0::nat) < length (getAllEntries
       \<lparr>zahnputz_entries = Parsed
          [\<lparr>entry_id = ''a'', date = 3, timestamp = 10, confirmed = False, reminderTime = None\<rparr>,
           \<lparr>entry_id = ''b'', date = 4, timestamp = 20, confirmed = False, reminderTime = None\<rparr>],
        zahnputz_settings = Absent, blocked = False, quota_exceeded = False\<rparr>) \<and>
   distinct (map entry_id (getAllEntries
       \<lparr>zahnputz_entries = Parsed
          [\<lparr>entry_id = ''a'', date = 3, timestamp = 10, confirmed = False, reminderTime = None\<rparr>,
           \<lparr>entry_id = ''b'', date = 4, timestamp = 20, confirmed = False, reminderTime = None\<rparr>],
        zahnputz_settings = Absent, blocked = False, quota_exceeded = False\<rparr>)) \<and>
   date (getAllEntries
       \<lparr>zahnputz_entries = Parsed
          [\<lparr>entry_id = ''a'', date = 3, timestamp = 10, confirmed = False, reminderTime = None\<rparr>,
           \<lparr>entry_id = ''b'', date = 4, timestamp = 20, confirmed = False, reminderTime = None\<rparr>],
        zahnputz_settings = Absent, blocked = False, quota_exceeded = False\<rparr> ! 0)
     \<noteq> getTodayDateString \<lparr>now_ms = 4 * 86400000 + 1000, tz_minutes = 0, dst_utc = (\<lambda>t. False), dst_local = (\<lambda>t. False)\<rparr> \<and>
   entry_id (getAllEntries
       \<lparr>zahnputz_entries = Parsed
          [\<lparr>entry_id = ''a'', date = 3, timestamp = 10, confirmed = False, reminderTime = None\<rparr>,
           \<lparr>entry_id = ''b'', date = 4, timestamp = 20, confirmed = False, reminderTime = None\<rparr>],
        zahnputz_settings = Absent, blocked = False, quota_exceeded = False\<rparr> ! 0) \<noteq> ''b'' \<and>
   getAllEntries
       \<lparr>zahnputz_entries = Parsed
             [\<lparr>entry_id = ''a'', date = 3, timestamp = 10, confirmed = False, reminderTime = None\<rparr>,
              \<lparr>entry_id = ''b'', date = 4, timestamp = 4 * 86400000 + 1000, confirmed = True, reminderTime = None\<rparr>],
           zahnputz_settings = Absent, blocked = False, quota_exceeded = False\<rparr> ! 0 =
   getAllEntries
       \<lparr>zahnputz_entries = Parsed
          [\<lparr>entry_id = ''a'', date = 3, timestamp = 10, confirmed = False, reminderTime = None\<rparr>,
           \<lparr>entry_id = ''b'', date = 4, timestamp = 20, confirmed = False, reminderTime = None\<rparr>],
        zahnputz_settings = Absent, blocked = False, quota_exceeded = False\<rparr> ! 0"
proof -
  let ?a = "\<lparr>entry_id = ''a'', date = 3, timestamp = 10, confirmed = False, reminderTime = None\<rparr>"
  let ?b = "\<lparr>entry_id = ''b'', date = 4, timestamp = 20, confirmed = False, reminderTime = None\<rparr>"
  let ?b1 = "\<lparr>entry_id = ''b'', date = 4, timestamp = 4 * 86400000 + 1000, confirmed = True, reminderTime = None\<rparr>"
  let ?b2 = "\<lparr>entry_id = ''b'', date = 5, timestamp = 20, confirmed = False, reminderTime = None\<rparr>"
  let ?c = "\<lparr>entry_id = ''c'', date = 3, timestamp = 30, confirmed = True, reminderTime = None\<rparr>"
  let ?s = "\<lparr>zahnputz_entries = Parsed [?a, ?b], zahnputz_settings = Absent, blocked = False, quota_exceeded = False\<rparr>"
  let ?s1 = "\<lparr>zahnputz_entries = Parsed [?a, ?b1], zahnputz_settings = Absent, blocked = False, quota_exceeded = False\<rparr>"
  let ?s2 = "\<lparr>zahnputz_entries = Parsed [?a, ?b2], zahnputz_settings = Absent, blocked = False, quota_exceeded = False\<rparr>"
  let ?s3 = "\<lparr>zahnputz_entries = Parsed [?a, ?b, ?c], zahnputz_settings = Absent, blocked = False, quota_exceeded = False\<rparr>"
  let ?clk = "\<lparr>now_ms = 4 * 86400000 + 1000, tz_minutes = 0, dst_utc = (\<lambda>t. False), dst_local = (\<lambda>t. False)\<rparr>"
  let ?u = "\<lparr>p_entry_id = None, p_date = Some 5, p_timestamp = None, p_confirmed = None, p_reminderTime = None\<rparr>"
  have h1: "confirmBrushingToday ?s ?clk ''u'' = Inr (?b1, ?s1)"
    by (simp add: eval_store)
  have h2: "updateEntry ?s ''b'' ?u = Inr (True, ?s2)"
    by (simp add: eval_store)
  have h3: "insertEntry ?s \<lparr>entry_id = [], date = 3, timestamp = 30, confirmed = True, reminderTime = None\<rparr> ''c''
              = Inr (?c, ?s3)"
    by (simp add: eval_store)
  have h4: "(0::nat) < length (getAllEntries ?s)"
    by (simp add: eval_store)
  have h5: "distinct (map entry_id (getAllEntries ?s))"
    by (simp add: eval_store)
  have h6: "date (getAllEntries ?s ! 0) \<noteq> getTodayDateString ?clk"
    by (simp add: eval_store)
  have h7: "entry_id (getAllEntries ?s ! 0) \<noteq> ''b''"
    by (simp add: eval_store)
  from store_mutators_frame [of ?s ?clk "''u''" ?b1 ?s1 "''b''" ?u True ?s2
              "\<lparr>entry_id = [], date = 3, timestamp = 30, confirmed = True, reminderTime = None\<rparr>" "''c''" ?c ?s3]
    h1 h4 h5 h6
  have "getAllEntries ?s1 ! 0 = getAllEntries ?s ! 0"
    by blast
  with h1 h2 h3 h4 h5 h6 h7 show ?thesis
    by blast
qed

section \<open>Properties of the statistics\<close>

subsection \<open>C3 and C5: the longest streak\<close>

lemma gap_days: "86400000 < Date_of_day b - Date_of_day a \<longleftrightarrow> 1 < b - a"
  by (auto simp: Date_of_day_def MS_PER_DAY_def)

lemma longestStreak_loop_max:
  "longestStreak_loop ds t (max l m) = max m (longestStreak_loop ds t l)"
  by (induction ds t l rule: longestStreak_loop.induct) (auto simp: max.assoc max.commute max.left_commute)

lemma longestStreak_loop_mono:
  "t \<le> t' \<Longrightarrow> longestStreak_loop ds t l \<le> longestStreak_loop ds t' l"
proof (induction ds t l arbitrary: t' rule: longestStreak_loop.induct)
  case (1 t l)
  then show ?case by simp
next
  case (2 d t l)
  then show ?case by simp
next
  case (3 d d' rest t l)
  show ?case
  proof (cases "d' - d > 1")
    case True
    have "max l (Suc t) \<le> max l (Suc t')" using "3.prems" by simp
    then have "max l (Suc t') = max (max l (Suc t)) (Suc t')" by simp
    then have "longestStreak_loop (d' # rest) 0 (max l (Suc t')) =
               max (Suc t') (longestStreak_loop (d' # rest) 0 (max l (Suc t)))"
      by (simp only: longestStreak_loop_max)
    with True show ?thesis by (simp add: gap_days)
  next
    case False
    with "3.IH"(2) [of "Suc t'"] "3.prems" show ?thesis by (simp add: gap_days)
  qed
qed

lemma longestStreak_loop_ge:
  "l \<le> longestStreak_loop ds t l" "ds \<noteq> [] \<Longrightarrow> Suc t \<le> longestStreak_loop ds t l"
proof -
  show "l \<le> longestStreak_loop ds t l"
    by (induction ds t l rule: longestStreak_loop.induct) (auto simp: gap_days intro: max.coboundedI1 order_trans)
  show "ds \<noteq> [] \<Longrightarrow> Suc t \<le> longestStreak_loop ds t l"
  proof (induction ds t l rule: longestStreak_loop.induct)
    case (3 d d' rest t l)
    show ?case
    proof (cases "d' - d > 1")
      case True
      have "longestStreak_loop (d' # rest) 0 (max l (Suc t)) = max (Suc t) (longestStreak_loop (d' # rest) 0 l)"
        by (rule longestStreak_loop_max)
      with True show ?thesis by (simp add: gap_days)
    next
      case False
      with "3.IH"(2) show ?thesis by (simp add: gap_days)
    qed
  qed simp_all
qed

lemma longestStreak_loop_runs:
  "longestStreak_loop ds t l = max l (foldr max (run_lengths ds t) 0)"
proof (induction ds t l rule: longestStreak_loop.induct)
  case (3 d d' rest t l)
  obtain r rs where rs: "run_lengths (d' # rest) (Suc t) = Suc (Suc t) # rs"
    by (cases rest) simp_all
  show ?case
  proof (cases "d' - d > 1")
    case True
    with "3.IH"(1) show ?thesis by (simp add: gap_days max.assoc)
  next
    case False
    with "3.IH"(2) rs show ?thesis by (simp add: gap_days)
  qed
qed simp_all

lemma getStats_longestStreak:
  "longestStreak (getStats ls clk) =
     longestStreak_loop (sort (map date (filter confirmed (getAllEntries ls)))) 0 0"
  by (simp add: getStats_def Let_def)

text \<open>
  Claim C3: the \<open>longestStreak\<close> that \<open>getStats\<close> computes equals the value the
  specification describes: the maximum run length seen when scanning the confirmed
  dates in ascending order with a run counter that is reset when the gap between
  consecutive confirmed dates exceeds one day.
\<close>

theorem longestStreak_scan:
  "longestStreak (getStats ls clk) =
     longestStreak_spec (map date (filter confirmed (getAllEntries ls)))"
  by (simp add: getStats_longestStreak longestStreak_loop_runs longestStreak_spec_def)

lemma longestStreak_loop_insort_tail:
  assumes "sorted (p # ds)" "p \<le> x"
  shows "longestStreak_loop (p # ds) t l \<le> longestStreak_loop (p # insort x ds) t l"
  using assms
proof (induction ds arbitrary: p t l)
  case Nil
  then show ?case by (simp add: gap_days le_max_iff_disj)
next
  case (Cons d rest)
  show ?case
  proof (cases "x \<le> d")
    case False
    with Cons.prems Cons.IH [of d] show ?thesis
      by (simp add: gap_days)
  next
    case True
    note xd = True
    have step: "longestStreak_loop (d # rest) 0 (max l (Suc t)) \<le> longestStreak_loop (d # rest) (Suc (Suc t)) l"
    proof -
      have "longestStreak_loop (d # rest) 0 (max l (Suc t)) = max (Suc t) (longestStreak_loop (d # rest) 0 l)"
        by (rule longestStreak_loop_max)
      moreover have "longestStreak_loop (d # rest) 0 l \<le> longestStreak_loop (d # rest) (Suc (Suc t)) l"
        by (rule longestStreak_loop_mono) simp
      moreover have "Suc (Suc (Suc t)) \<le> longestStreak_loop (d # rest) (Suc (Suc t)) l"
        by (rule longestStreak_loop_ge(2)) simp
      ultimately show ?thesis by simp
    qed
    have m1: "longestStreak_loop (d # rest) 0 (max l (Suc t)) \<le> longestStreak_loop (d # rest) 0 (max (max l (Suc t)) (Suc 0))"
      by (simp only: longestStreak_loop_max [of _ _ "max l (Suc t)" "Suc 0"] max.cobounded2)
    have m2: "longestStreak_loop (d # rest) 0 (max l (Suc t)) \<le> longestStreak_loop (d # rest) (Suc 0) (max l (Suc t))"
      by (rule longestStreak_loop_mono) simp
    have m3: "longestStreak_loop (d # rest) 0 (max l (Suc t)) \<le> longestStreak_loop (d # rest) 0 (max l (Suc (Suc t)))"
    proof -
      have "max l (Suc (Suc t)) = max (max l (Suc t)) (Suc (Suc t))" by simp
      then show ?thesis by (simp only: longestStreak_loop_max max.cobounded2)
    qed
    have m4: "longestStreak_loop (d # rest) (Suc t) l \<le> longestStreak_loop (d # rest) (Suc (Suc t)) l"
      by (rule longestStreak_loop_mono) simp
    from xd Cons.prems have ins: "insort x (d # rest) = x # d # rest" by simp
    from Cons.prems xd have ord: "p \<le> x" "x \<le> d" by simp_all
    show ?thesis
      unfolding ins using ord step m1 m2 m3 m4
      by (auto simp: gap_days)
  qed
qed

lemma longestStreak_loop_insort:
  assumes "sorted ds"
  shows "longestStreak_loop ds 0 0 \<le> longestStreak_loop (insort x ds) 0 0"
proof (cases ds)
  case Nil
  then show ?thesis by simp
next
  case (Cons d rest)
  show ?thesis
  proof (cases "x \<le> d")
    case True
    have "longestStreak_loop (d # rest) 0 0 \<le> longestStreak_loop (d # rest) 0 (max 0 (Suc 0))"
      by (simp only: longestStreak_loop_max max.cobounded2)
    moreover have "longestStreak_loop (d # rest) 0 0 \<le> longestStreak_loop (d # rest) (Suc 0) 0"
      by (rule longestStreak_loop_mono) simp
    ultimately show ?thesis using True Cons by (simp add: gap_days)
  next
    case False
    with Cons assms longestStreak_loop_insort_tail [of d rest x 0 0] show ?thesis
      by simp
  qed
qed

lemma longestStreak_add_date:
  assumes "mset ds' = add_mset x (mset ds)"
  shows "longestStreak_loop (sort ds) 0 0 \<le> longestStreak_loop (sort ds') 0 0"
proof -
  have "mset (insort x (sort ds)) = mset ds'"
    using assms by simp
  moreover have "sorted (insort x (sort ds))"
    by (simp add: sorted_insort)
  ultimately have "sort ds' = insort x (sort ds)"
    using properties_for_sort [of "insort x (sort ds)" ds'] by simp
  then show ?thesis
    by (simp add: longestStreak_loop_insort)
qed

lemma mset_confirm_update:
  "i < length xs \<Longrightarrow>
     mset (map date (filter confirmed (xs[i := (xs ! i)\<lparr>confirmed := True, timestamp := t\<rparr>]))) =
       (if confirmed (xs ! i) then mset (map date (filter confirmed xs))
        else add_mset (date (xs ! i)) (mset (map date (filter confirmed xs))))"
proof (induction xs arbitrary: i)
  case Nil
  then show ?case by simp
next
  case (Cons x xs)
  show ?case
  proof (cases i)
    case 0
    then show ?thesis by simp
  next
    case (Suc k)
    with Cons.prems have "k < length xs" by simp
    from Cons.IH [OF this] Suc show ?thesis by simp
  qed
qed

lemma sort_mset_cong: "mset xs = mset (ys::int list) \<Longrightarrow> sort xs = sort ys"
  using properties_for_sort [of "sort ys" xs] by simp

text \<open>
  Claim C5: adding a confirmed entry with \<open>insertEntry\<close>, or confirming with
  \<open>confirmBrushingToday\<close>, never lowers the \<open>longestStreak\<close> that \<open>getStats\<close> computes.
\<close>

theorem longestStreak_monotone:
  "(insertEntry ls entry uuid = Inr (r, ls') \<and> confirmed entry \<longrightarrow>
      longestStreak (getStats ls clk) \<le> longestStreak (getStats ls' clk')) \<and>
   (confirmBrushingToday ls clk0 uuid2 = Inr (r2, ls2) \<longrightarrow>
      longestStreak (getStats ls clk) \<le> longestStreak (getStats ls2 clk'))"
proof (intro conjI impI)
  assume a: "insertEntry ls entry uuid = Inr (r, ls') \<and> confirmed entry"
  then have new: "getAllEntries ls' = getAllEntries ls @ [r]" and r: "r = entry\<lparr>entry_id := uuid\<rparr>"
    by (auto dest: insertEntry_entries)
  with a have "mset (map date (filter confirmed (getAllEntries ls'))) =
               add_mset (date r) (mset (map date (filter confirmed (getAllEntries ls))))"
    by simp
  then show "longestStreak (getStats ls clk) \<le> longestStreak (getStats ls' clk')"
    unfolding getStats_longestStreak by (rule longestStreak_add_date)
next
  assume ok: "confirmBrushingToday ls clk0 uuid2 = Inr (r2, ls2)"
  from confirm_cases [OF ok]
  show "longestStreak (getStats ls clk) \<le> longestStreak (getStats ls2 clk')"
  proof (elim disjE conjE exE)
    assume "getAllEntries ls2 = getAllEntries ls @
            [\<lparr>entry_id = uuid2, date = getTodayDateString clk0, timestamp = now_ms clk0,
              confirmed = True, reminderTime = None\<rparr>]"
    then have "mset (map date (filter confirmed (getAllEntries ls2))) =
               add_mset (getTodayDateString clk0) (mset (map date (filter confirmed (getAllEntries ls))))"
      by simp
    then show ?thesis
      unfolding getStats_longestStreak by (rule longestStreak_add_date)
  next
    fix existing i
    assume idx: "findIndex (\<lambda>entry. entry_id entry = entry_id existing) (getAllEntries ls) = Some i"
      and new: "getAllEntries ls2 =
              (getAllEntries ls)[i := (getAllEntries ls ! i)\<lparr>confirmed := True, timestamp := now_ms clk0\<rparr>]"
    from findIndex_Some [OF idx] have i: "i < length (getAllEntries ls)" by simp
    show ?thesis
    proof (cases "confirmed (getAllEntries ls ! i)")
      case True
      with mset_confirm_update [OF i, of "now_ms clk0"] new
      have "mset (map date (filter confirmed (getAllEntries ls2))) =
            mset (map date (filter confirmed (getAllEntries ls)))"
        by simp
      then have "sort (map date (filter confirmed (getAllEntries ls2))) =
                 sort (map date (filter confirmed (getAllEntries ls)))"
        by (rule sort_mset_cong)
      then show ?thesis
        unfolding getStats_longestStreak by simp
    next
      case False
      with mset_confirm_update [OF i, of "now_ms clk0"] new
      have "mset (map date (filter confirmed (getAllEntries ls2))) =
            add_mset (date (getAllEntries ls ! i)) (mset (map date (filter confirmed (getAllEntries ls))))"
        by simp
      then show ?thesis
        unfolding getStats_longestStreak by (rule longestStreak_add_date)
    qed
  qed
qed

text \<open>
  Witness for C5: days 2 and 4 confirmed; day 3 is added by either operation.
\<close>

theorem longestStreak_monotone_witness:
  "insertEntry
       \<lparr>zahnputz_entries = Parsed
          [\<lparr>entry_id = ''a'', date = 2, timestamp = 1, confirmed = True, reminderTime = None\<rparr>,
           \<lparr>entry_id = ''b'', date = 4, timestamp = 2, confirmed = True, reminderTime = None\<rparr>],
        zahnputz_settings = Absent, blocked = False, quota_exceeded = False\<rparr>
       \<lparr>entry_id = [], date = 3, timestamp = 3, confirmed = True, reminderTime = None\<rparr> ''c'' =
     Inr (\<lparr>entry_id = ''c'', date = 3, timestamp = 3, confirmed = True, reminderTime = None\<rparr>,
          \<lparr>zahnputz_entries = Parsed
            [\<lparr>entry_id = ''a'', date = 2, timestamp = 1, confirmed = True, reminderTime = None\<rparr>,
             \<lparr>entry_id = ''b'', date = 4, timestamp = 2, confirmed = True, reminderTime = None\<rparr>,
             \<lparr>entry_id = ''c'', date = 3, timestamp = 3, confirmed = True, reminderTime = None\<rparr>],
           zahnputz_settings = Absent, blocked = False, quota_exceeded = False\<rparr>) \<and>
   confirmed \<lparr>entry_id = [], date = 3, timestamp = 3, confirmed = True, reminderTime = None\<rparr> \<and>
   confirmBrushingToday
       \<lparr>zahnputz_entries = Parsed
          [\<lparr>entry_id = ''a'', date = 2, timestamp = 1, confirmed = True, reminderTime = None\<rparr>,
           \<lparr>entry_id = ''b'', date = 4, timestamp = 2, confirmed = True, reminderTime = None\<rparr>],
        zahnputz_settings = Absent, blocked = False, quota_exceeded = False\<rparr>
       \<lparr>now_ms = 3 * 86400000 + 1000, tz_minutes = 0, dst_utc = (\<lambda>t. False), dst_local = (\<lambda>t. False)\<rparr> ''d'' =
     Inr (\<lparr>entry_id = ''d'', date = 3, timestamp = 3 * 86400000 + 1000, confirmed = True, reminderTime = None\<rparr>,
          \<lparr>zahnputz_entries = Parsed
            [\<lparr>entry_id = ''a'', date = 2, timestamp = 1, confirmed = True, reminderTime = None\<rparr>,
             \<lparr>entry_id = ''b'', date = 4, timestamp = 2, confirmed = True, reminderTime = None\<rparr>,
             \<lparr>entry_id = ''d'', date = 3, timestamp = 3 * 86400000 + 1000, confirmed = True, reminderTime = None\<rparr>],
           zahnputz_settings = Absent, blocked = False, quota_exceeded = False\<rparr>) \<and>
   longestStreak (getStats
       \<lparr>zahnputz_entries = Parsed
          [\<lparr>entry_id = ''a'', date = 2, timestamp = 1, confirmed = True, reminderTime = None\<rparr>,
           \<lparr>entry_id = ''b'', date = 4, timestamp = 2, confirmed = True, reminderTime = None\<rparr>],
        zahnputz_settings = Absent, blocked = False, quota_exceeded = False\<rparr>
       \<lparr>now_ms = 0, tz_minutes = 0, dst_utc = (\<lambda>t. False), dst_local = (\<lambda>t. False)\<rparr>)
   \<le> longestStreak (getStats
          \<lparr>zahnputz_entries = Parsed
            [\<lparr>entry_id = ''a'', date = 2, timestamp = 1, confirmed = True, reminderTime = None\<rparr>,
             \<lparr>entry_id = ''b'', date = 4, timestamp = 2, confirmed = True, reminderTime = None\<rparr>,
             \<lparr>entry_id = ''c'', date = 3, timestamp = 3, confirmed = True, reminderTime = None\<rparr>],
           zahnputz_settings = Absent, blocked = False, quota_exceeded = False\<rparr>
          \<lparr>now_ms = 0, tz_minutes = 0, dst_utc = (\<lambda>t. False), dst_local = (\<lambda>t. False)\<rparr>) \<and>
   longestStreak (getStats
       \<lparr>zahnputz_entries = Parsed
          [\<lparr>entry_id = ''a'', date = 2, timestamp = 1, confirmed = True, reminderTime = None\<rparr>,
           \<lparr>entry_id = ''b'', date = 4, timestamp = 2, confirmed = True, reminderTime = None\<rparr>],
        zahnputz_settings = Absent, blocked = False, quota_exceeded = False\<rparr>
       \<lparr>now_ms = 0, tz_minutes = 0, dst_utc = (\<lambda>t. False), dst_local = (\<lambda>t. False)\<rparr>)
   \<le> longestStreak (getStats
          \<lparr>zahnputz_entries = Parsed
            [\<lparr>entry_id = ''a'', date = 2, timestamp = 1, confirmed = True, reminderTime = None\<rparr>,
             \<lparr>entry_id = ''b'', date = 4, timestamp = 2, confirmed = True, reminderTime = None\<rparr>,
             \<lparr>entry_id = ''d'', date = 3, timestamp = 3 * 86400000 + 1000, confirmed = True, reminderTime = None\<rparr>],
           zahnputz_settings = Absent, blocked = False, quota_exceeded = False\<rparr>
          \<lparr>now_ms = 0, tz_minutes = 0, dst_utc = (\<lambda>t. False), dst_local = (\<lambda>t. False)\<rparr>)"
proof -
  let ?a = "\<lparr>entry_id = ''a'', date = 2, timestamp = 1, confirmed = True, reminderTime = None\<rparr>"
  let ?b = "\<lparr>entry_id = ''b'', date = 4, timestamp = 2, confirmed = True, reminderTime = None\<rparr>"
  let ?c = "\<lparr>entry_id = ''c'', date = 3, timestamp = 3, confirmed = True, reminderTime = None\<rparr>"
  let ?d = "\<lparr>entry_id = ''d'', date = 3, timestamp = 3 * 86400000 + 1000, confirmed = True, reminderTime = None\<rparr>"
  let ?e = "\<lparr>entry_id = [], date = 3, timestamp = 3, confirmed = True, reminderTime = None\<rparr>"
  let ?s = "\<lparr>zahnputz_entries = Parsed [?a, ?b], zahnputz_settings = Absent, blocked = False, quota_exceeded = False\<rparr>"
  let ?s1 = "\<lparr>zahnputz_entries = Parsed [?a, ?b, ?c], zahnputz_settings = Absent, blocked = False, quota_exceeded = False\<rparr>"
  let ?s2 = "\<lparr>zahnputz_entries = Parsed [?a, ?b, ?d], zahnputz_settings = Absent, blocked = False, quota_exceeded = False\<rparr>"
  let ?k = "\<lparr>now_ms = 0, tz_minutes = 0, dst_utc = (\<lambda>t. False), dst_local = (\<lambda>t. False)\<rparr>"
  let ?k3 = "\<lparr>now_ms = 3 * 86400000 + 1000, tz_minutes = 0, dst_utc = (\<lambda>t. False), dst_local = (\<lambda>t. False)\<rparr>"
  have h1: "insertEntry ?s ?e ''c'' = Inr (?c, ?s1)"
    by (simp add: eval_store)
  have h2: "confirmed ?e"
    by simp
  have h3: "confirmBrushingToday ?s ?k3 ''d'' = Inr (?d, ?s2)"
    by (simp add: eval_store)
  from longestStreak_monotone [of ?s ?e "''c''" ?c ?s1 ?k ?k ?k3 "''d''" ?d ?s2] h1 h2 h3
  have "longestStreak (getStats ?s ?k) \<le> longestStreak (getStats ?s1 ?k)"
       "longestStreak (getStats ?s ?k) \<le> longestStreak (getStats ?s2 ?k)"
    by blast+
  with h1 h2 h3 show ?thesis by blast
qed

subsection \<open>C2 and C4: the current streak\<close>

lemma setDate_add_same_offset:
  assumes "dst_local clk (LocalTime clk t + n * MS_PER_DAY) = dst_utc clk t"
  shows "setDate_add clk t n = t + n * MS_PER_DAY"
  using assms by (simp add: setDate_add_def UTC_def LocalTime_def LocalTZA_def)

lemma toISODate_prev: "toISODate (c - MS_PER_DAY) = toISODate c - 1"
  by (simp add: toISODate_def MS_PER_DAY_def)

lemma currentStreak_loop_run:
  assumes "\<forall>t. dst_local clk (LocalTime clk t + (- 1) * MS_PER_DAY) = dst_utc clk t"
  shows "\<exists>k. currentStreak_loop clk ds c n = n + k \<and>
       (\<forall>j<k. toISODate c - int j \<in> set ds) \<and> toISODate c - int k \<notin> set ds"
  using assms
proof (induction clk ds c n rule: currentStreak_loop.induct)
  case (1 clk ds c n)
  note fixed = "1.prems"
  have step: "setDate_add clk c (- 1) = c - MS_PER_DAY"
    using setDate_add_same_offset [of clk c "- 1"] fixed by simp
  show ?case
  proof (cases "toISODate c \<in> set ds")
    case False
    then have "currentStreak_loop clk ds c n = n + 0 \<and>
       (\<forall>j<0. toISODate c - int j \<in> set ds) \<and> toISODate c - int 0 \<notin> set ds"
      by (subst currentStreak_loop.simps) simp
    then show ?thesis by blast
  next
    case True
    from "1.IH" [OF True fixed] obtain k where
      k: "currentStreak_loop clk ds (c - MS_PER_DAY) (Suc n) = Suc n + k"
         "\<forall>j<k. toISODate (c - MS_PER_DAY) - int j \<in> set ds"
         "toISODate (c - MS_PER_DAY) - int k \<notin> set ds"
      unfolding step by blast
    have "currentStreak_loop clk ds c n = n + Suc k"
      using True k(1) by (subst currentStreak_loop.simps) (simp add: step)
    moreover have "\<forall>j<Suc k. toISODate c - int j \<in> set ds"
    proof (intro allI impI)
      fix j assume "j < Suc k"
      show "toISODate c - int j \<in> set ds"
      proof (cases j)
        case 0
        with True show ?thesis by simp
      next
        case (Suc j')
        with \<open>j < Suc k\<close> k(2) have "toISODate (c - MS_PER_DAY) - int j' \<in> set ds" by simp
        with Suc show ?thesis by (simp add: toISODate_prev algebra_simps)
      qed
    qed
    moreover have "toISODate c - int (Suc k) \<notin> set ds"
      using k(3) by (simp add: toISODate_prev algebra_simps)
    ultimately show ?thesis by blast
  qed
qed

lemma getStats_currentStreak:
  "currentStreak (getStats ls clk) =
     currentStreak_loop clk (rev (sort (map date (filter confirmed (getAllEntries ls))))) (now_ms clk) 0"
  by (simp add: getStats_def Let_def currentStreak_loop.simps [of _ "[]"])

text \<open>
  In a zone where a step of one local day back never changes the offset, the loop counts
  the run of confirmed days that ends at the UTC date of the clock.
\<close>

lemma currentStreak_run:
  assumes "\<forall>t. dst_local clk (LocalTime clk t + (- 1) * MS_PER_DAY) = dst_utc clk t"
  shows "(\<forall>j<currentStreak (getStats ls clk).
       toISODate (now_ms clk) - int j \<in> date ` set (filter confirmed (getAllEntries ls))) \<and>
   toISODate (now_ms clk) - int (currentStreak (getStats ls clk))
       \<notin> date ` set (filter confirmed (getAllEntries ls))"
proof -
  let ?ds = "rev (sort (map date (filter confirmed (getAllEntries ls))))"
  have set_ds: "set ?ds = date ` set (filter confirmed (getAllEntries ls))"
    by simp
  from currentStreak_loop_run [OF assms, of ?ds "now_ms clk" 0] obtain k where
    k: "currentStreak_loop clk ?ds (now_ms clk) 0 = 0 + k"
       "\<forall>j<k. toISODate (now_ms clk) - int j \<in> set ?ds"
       "toISODate (now_ms clk) - int k \<notin> set ?ds"
    by blast
  from k(1) have "currentStreak (getStats ls clk) = k"
    by (simp only: getStats_currentStreak add_0)
  with k(2,3) show ?thesis
    by (simp only: set_ds) simp
qed

lemmas eval_stats = getStats_def hasBrushedToday_def toISODate_def Date_of_day_def Math_round_def
  currentStreak_loop.simps

text \<open>
  Claim C2 at a failing input: in a zone two hours east of UTC, at 00:30 local time of
  2024-03-10 (day 19792; 22:30 UTC of the day before), \<open>confirmBrushingToday\<close> on the
  empty store records the local date, \<open>hasBrushedToday\<close> holds, and \<open>getStats\<close>, which
  walks back from the UTC date of the clock, reports a \<open>currentStreak\<close> of 0 although
  today has a confirmed entry.
\<close>

theorem currentStreak_utc_date_failing_input:
  "confirmBrushingToday
       \<lparr>zahnputz_entries = Absent, zahnputz_settings = Absent, blocked = False, quota_exceeded = False\<rparr>
       \<lparr>now_ms = 1710023400000, tz_minutes = 120, dst_utc = (\<lambda>t. False), dst_local = (\<lambda>t. False)\<rparr> ''u'' =
     Inr (\<lparr>entry_id = ''u'', date = 19792, timestamp = 1710023400000, confirmed = True, reminderTime = None\<rparr>,
          \<lparr>zahnputz_entries = Parsed
             [\<lparr>entry_id = ''u'', date = 19792, timestamp = 1710023400000, confirmed = True, reminderTime = None\<rparr>],
           zahnputz_settings = Absent, blocked = False, quota_exceeded = False\<rparr>) \<and>
   getTodayDateString \<lparr>now_ms = 1710023400000, tz_minutes = 120, dst_utc = (\<lambda>t. False), dst_local = (\<lambda>t. False)\<rparr> = 19792 \<and>
   toISODate (now_ms \<lparr>now_ms = 1710023400000, tz_minutes = 120, dst_utc = (\<lambda>t. False), dst_local = (\<lambda>t. False)\<rparr>) = 19791 \<and>
   hasBrushedToday
       \<lparr>zahnputz_entries = Parsed
             [\<lparr>entry_id = ''u'', date = 19792, timestamp = 1710023400000, confirmed = True, reminderTime = None\<rparr>],
           zahnputz_settings = Absent, blocked = False, quota_exceeded = False\<rparr>
       \<lparr>now_ms = 1710023400000, tz_minutes = 120, dst_utc = (\<lambda>t. False), dst_local = (\<lambda>t. False)\<rparr> \<and>
   currentStreak (getStats
       \<lparr>zahnputz_entries = Parsed
             [\<lparr>entry_id = ''u'', date = 19792, timestamp = 1710023400000, confirmed = True, reminderTime = None\<rparr>],
           zahnputz_settings = Absent, blocked = False, quota_exceeded = False\<rparr>
       \<lparr>now_ms = 1710023400000, tz_minutes = 120, dst_utc = (\<lambda>t. False), dst_local = (\<lambda>t. False)\<rparr>) = 0"
  by (simp add: eval_store eval_stats)

text \<open>
  Claim C4 as stated (the streak is 0 on any day after a missed day) fails once today is
  confirmed: day 4 has no entry, day 5 is confirmed, and on day 5 the streak is 1.
\<close>

theorem currentStreak_after_missed_day_counterexample:
  "getTodayDateString \<lparr>now_ms = 5 * 86400000 + 3600000, tz_minutes = 0, dst_utc = (\<lambda>t. False), dst_local = (\<lambda>t. False)\<rparr> = 5 \<and>
   getTodayDateString \<lparr>now_ms = 5 * 86400000 + 3600000, tz_minutes = 0, dst_utc = (\<lambda>t. False), dst_local = (\<lambda>t. False)\<rparr> - 1 \<notin>
     date ` set (filter confirmed (getAllEntries
       \<lparr>zahnputz_entries = Parsed
          [\<lparr>entry_id = ''a'', date = 5, timestamp = 5 * 86400000 + 1000, confirmed = True, reminderTime = None\<rparr>],
        zahnputz_settings = Absent, blocked = False, quota_exceeded = False\<rparr>)) \<and>
   currentStreak (getStats
       \<lparr>zahnputz_entries = Parsed
          [\<lparr>entry_id = ''a'', date = 5, timestamp = 5 * 86400000 + 1000, confirmed = True, reminderTime = None\<rparr>],
        zahnputz_settings = Absent, blocked = False, quota_exceeded = False\<rparr>
       \<lparr>now_ms = 5 * 86400000 + 3600000, tz_minutes = 0, dst_utc = (\<lambda>t. False), dst_local = (\<lambda>t. False)\<rparr>) = 1"
  by (simp add: eval_store eval_stats)

text \<open>
  Claim C4, amended: at a moment when the local date and the UTC date of the clock agree
  and the zone's offset at the same wall-clock time yesterday is the offset of now (no
  daylight-saving change in between), on a day that follows a calendar day without
  confirmed entry, \<open>currentStreak\<close> is 0 as long as today has no confirmed entry and 1
  once it has one.
\<close>

theorem currentStreak_after_missed_day:
  assumes "getTodayDateString clk = toISODate (now_ms clk)"
      and "dst_local clk (LocalTime clk (now_ms clk) + (- 1) * MS_PER_DAY) = dst_utc clk (now_ms clk)"
      and "getTodayDateString clk - 1 \<notin> date ` set (filter confirmed (getAllEntries ls))"
  shows "currentStreak (getStats ls clk) =
           (if getTodayDateString clk \<in> date ` set (filter confirmed (getAllEntries ls)) then 1 else 0)"
proof -
  let ?ds = "rev (sort (map date (filter confirmed (getAllEntries ls))))"
  let ?D = "date ` set (filter confirmed (getAllEntries ls))"
  let ?now = "now_ms clk"
  have set_ds: "set ?ds = ?D"
    by simp
  have step: "setDate_add clk ?now (- 1) = ?now - MS_PER_DAY"
    using setDate_add_same_offset [OF assms(2)] by simp
  have yesterday: "toISODate (?now - MS_PER_DAY) \<notin> set ?ds"
    using assms(1,3) by (simp only: set_ds toISODate_prev) simp
  show ?thesis
  proof (cases "toISODate ?now \<in> set ?ds")
    case False
    then have "currentStreak_loop clk ?ds ?now 0 = 0"
      by (subst currentStreak_loop.simps) simp
    moreover have "getTodayDateString clk \<notin> ?D"
      using False assms(1) by simp
    ultimately show ?thesis
      by (simp only: getStats_currentStreak if_False)
  next
    case True
    then have "currentStreak_loop clk ?ds ?now 0 = currentStreak_loop clk ?ds (?now - MS_PER_DAY) (Suc 0)"
      by (subst currentStreak_loop.simps) (simp add: step)
    also have "\<dots> = Suc 0"
      using yesterday by (subst currentStreak_loop.simps) simp
    finally have "currentStreak_loop clk ?ds ?now 0 = 1"
      by simp
    moreover from True have "getTodayDateString clk \<in> ?D"
      by (simp only: set_ds assms(1))
    ultimately show ?thesis
      by (simp only: getStats_currentStreak if_True)
  qed
qed

text \<open>
  Witness for C4: days 3 and 5 confirmed, day 4 not, read on day 5 in a zone without
  daylight saving.
\<close>

theorem currentStreak_after_missed_day_witness:
  "getTodayDateString \<lparr>now_ms = 5 * 86400000 + 3600000, tz_minutes = 0, dst_utc = (\<lambda>t. False), dst_local = (\<lambda>t. False)\<rparr> =
     toISODate (now_ms \<lparr>now_ms = 5 * 86400000 + 3600000, tz_minutes = 0, dst_utc = (\<lambda>t. False), dst_local = (\<lambda>t. False)\<rparr>) \<and>
   getTodayDateString \<lparr>now_ms = 5 * 86400000 + 3600000, tz_minutes = 0, dst_utc = (\<lambda>t. False), dst_local = (\<lambda>t. False)\<rparr> - 1 \<notin>
     date ` set (filter confirmed (getAllEntries
       \<lparr>zahnputz_entries = Parsed
          [\<lparr>entry_id = ''a'', date = 3, timestamp = 1, confirmed = True, reminderTime = None\<rparr>,
           \<lparr>entry_id = ''b'', date = 4, timestamp = 2, confirmed = False, reminderTime = None\<rparr>,
           \<lparr>entry_id = ''c'', date = 5, timestamp = 3, confirmed = True, reminderTime = None\<rparr>],
        zahnputz_settings = Absent, blocked = False, quota_exceeded = False\<rparr>)) \<and>
   getTodayDateString \<lparr>now_ms = 5 * 86400000 + 3600000, tz_minutes = 0, dst_utc = (\<lambda>t. False), dst_local = (\<lambda>t. False)\<rparr> \<in>
     date ` set (filter confirmed (getAllEntries
       \<lparr>zahnputz_entries = Parsed
          [\<lparr>entry_id = ''a'', date = 3, timestamp = 1, confirmed = True, reminderTime = None\<rparr>,
           \<lparr>entry_id = ''b'', date = 4, timestamp = 2, confirmed = False, reminderTime = None\<rparr>,
           \<lparr>entry_id = ''c'', date = 5, timestamp = 3, confirmed = True, reminderTime = None\<rparr>],
        zahnputz_settings = Absent, blocked = False, quota_exceeded = False\<rparr>)) \<and>
   currentStreak (getStats
       \<lparr>zahnputz_entries = Parsed
          [\<lparr>entry_id = ''a'', date = 3, timestamp = 1, confirmed = True, reminderTime = None\<rparr>,
           \<lparr>entry_id = ''b'', date = 4, timestamp = 2, confirmed = False, reminderTime = None\<rparr>,
           \<lparr>entry_id = ''c'', date = 5, timestamp = 3, confirmed = True, reminderTime = None\<rparr>],
        zahnputz_settings = Absent, blocked = False, quota_exceeded = False\<rparr>
       \<lparr>now_ms = 5 * 86400000 + 3600000, tz_minutes = 0, dst_utc = (\<lambda>t. False), dst_local = (\<lambda>t. False)\<rparr>) = 1"
proof -
  let ?s = "\<lparr>zahnputz_entries = Parsed
          [\<lparr>entry_id = ''a'', date = 3, timestamp = 1, confirmed = True, reminderTime = None\<rparr>,
           \<lparr>entry_id = ''b'', date = 4, timestamp = 2, confirmed = False, reminderTime = None\<rparr>,
           \<lparr>entry_id = ''c'', date = 5, timestamp = 3, confirmed = True, reminderTime = None\<rparr>],
        zahnputz_settings = Absent, blocked = False, quota_exceeded = False\<rparr>"
  let ?c = "\<lparr>now_ms = 5 * 86400000 + 3600000, tz_minutes = 0, dst_utc = (\<lambda>t. False), dst_local = (\<lambda>t. False)\<rparr>"
  have h1: "getTodayDateString ?c = toISODate (now_ms ?c)"
    by (simp add: eval_store eval_stats)
  have h2: "dst_local ?c (LocalTime ?c (now_ms ?c) + (- 1) * MS_PER_DAY) = dst_utc ?c (now_ms ?c)"
    by simp
  have h3: "getTodayDateString ?c - 1 \<notin> date ` set (filter confirmed (getAllEntries ?s))"
    by (simp add: eval_store)
  have h4: "getTodayDateString ?c \<in> date ` set (filter confirmed (getAllEntries ?s))"
    by (simp add: eval_store)
  from currentStreak_after_missed_day [OF h1 h2 h3] h4 have "currentStreak (getStats ?s ?c) = 1"
    by simp
  with h1 h3 h4 show ?thesis by blast
qed

text \<open>
  Without the condition on the offset the step back is not one UTC day. New York,
  2024-03-10 at 19:30 local time (23:30 UTC), the day the clocks went forward, with that
  day (day 19792) as the only confirmed one: the same wall-clock time of the day before
  is 23 hours earlier, still on the UTC date 2024-03-10, so the loop counts the day twice.
\<close>

lemma currentStreak_offset_change_example:
  "getTodayDateString \<lparr>now_ms = 1710113400000, tz_minutes = - 300,
        dst_utc = (\<lambda>t. 1710054000000 \<le> t), dst_local = (\<lambda>t. 1710039600000 \<le> t)\<rparr> = 19792 \<and>
   toISODate 1710113400000 = 19792 \<and>
   setDate_add \<lparr>now_ms = 1710113400000, tz_minutes = - 300,
        dst_utc = (\<lambda>t. 1710054000000 \<le> t), dst_local = (\<lambda>t. 1710039600000 \<le> t)\<rparr> 1710113400000 (- 1)
     = 1710113400000 - 82800000 \<and>
   currentStreak (getStats
       \<lparr>zahnputz_entries = Parsed
          [\<lparr>entry_id = ''a'', date = 19792, timestamp = 1710100000000, confirmed = True, reminderTime = None\<rparr>],
        zahnputz_settings = Absent, blocked = False, quota_exceeded = False\<rparr>
       \<lparr>now_ms = 1710113400000, tz_minutes = - 300,
        dst_utc = (\<lambda>t. 1710054000000 \<le> t), dst_local = (\<lambda>t. 1710039600000 \<le> t)\<rparr>) = 2"
  by (simp add: eval_store eval_stats)

subsection \<open>C6: the weekly average\<close>






text \<open>
  The window is measured to the wall clock. Berlin, 2024-04-10 at 01:30 local time
  (2024-04-09, 23:30 UTC), with one confirmed entry dated 2024-03-11 (day 19793): thirty
  local days before now is 2024-03-11 at 01:30 local winter time, 00:30 UTC, half an hour
  after the UTC midnight the entry is read as, so the entry is not counted.
\<close>

lemma averagePerWeek_offset_change_example:
  "setDate_add \<lparr>now_ms = 1712705400000, tz_minutes = 60,
        dst_utc = (\<lambda>t. 1711846800000 \<le> t), dst_local = (\<lambda>t. 1711854000000 \<le> t)\<rparr> 1712705400000 (- 30)
     = 1710117000000 \<and>
   Date_of_day 19793 = 1710115200000 \<and>
   averagePerWeek (getStats
       \<lparr>zahnputz_entries = Parsed
          [\<lparr>entry_id = ''a'', date = 19793, timestamp = 1710150000000, confirmed = True, reminderTime = None\<rparr>],
        zahnputz_settings = Absent, blocked = False, quota_exceeded = False\<rparr>
       \<lparr>now_ms = 1712705400000, tz_minutes = 60,
        dst_utc = (\<lambda>t. 1711846800000 \<le> t), dst_local = (\<lambda>t. 1711854000000 \<le> t)\<rparr>) = 0"
proof -
  have "\<lfloor>1 / 2 :: rat\<rfloor> = 0"
    by (simp add: floor_eq_iff)
  then show ?thesis
    by (simp add: eval_store eval_stats)
qed

section \<open>Properties of the failure handling\<close>

subsection \<open>C7: which operations catch\<close>

text \<open>
  Claim C7 as stated (every storage operation catches failures of the local store and
  never propagates an error) fails for the writes: with the quota exceeded, \<open>setItem\<close>
  throws inside \<open>insertEntry\<close>, which has no \<open>try\<close>, and the error reaches the caller.
\<close>

theorem insertEntry_quota_counterexample:
  "insertEntry
     \<lparr>zahnputz_entries = Absent, zahnputz_settings = Absent, blocked = False, quota_exceeded = True\<rparr>
     \<lparr>entry_id = [], date = 3, timestamp = 30, confirmed = True, reminderTime = None\<rparr> ''c'' =
   Inl QuotaExceededError"
  by (simp add: eval_store)

lemma getAllEntries_eq:
  "getAllEntries ls =
     (if blocked ls then [] else (case zahnputz_entries ls of Parsed v \<Rightarrow> v | _ \<Rightarrow> []))"
  by (simp add: getAllEntries_def getItem_def JSON_parse_def split: item.splits)

lemma getSettings_eq:
  "getSettings ls =
     (if blocked ls then DEFAULT_SETTINGS
      else (case zahnputz_settings ls of
              Parsed v \<Rightarrow> spread_settings DEFAULT_SETTINGS v
            | _ \<Rightarrow> DEFAULT_SETTINGS))"
  by (simp add: getSettings_def getItem_def JSON_parse_def split: item.splits)

lemma findIndex_mem:
  "ident \<in> entry_id ` set es \<Longrightarrow> \<exists>i. findIndex (\<lambda>entry. entry_id entry = ident) es = Some i"
  using findIndex_None [of "\<lambda>entry. entry_id entry = ident" es]
  by (cases "findIndex (\<lambda>entry. entry_id entry = ident) es") auto

lemma filter_shorter:
  "ident \<in> entry_id ` set es \<Longrightarrow> length (filter (\<lambda>entry. entry_id entry \<noteq> ident) es) \<noteq> length es"
proof -
  assume "ident \<in> entry_id ` set es"
  then obtain e where "e \<in> set es" "\<not> entry_id e \<noteq> ident"
    by auto
  then have "length (filter (\<lambda>entry. entry_id entry \<noteq> ident) es) < length es"
    by (rule length_filter_less)
  then show ?thesis by simp
qed

text \<open>
  Claim C7, amended: the reads catch every failure of the local store and return the
  safe default (\<open>getAllEntries\<close> the empty list, \<open>getSettings\<close> the default settings, when
  the store refuses access or the item is missing or unparsable); the writes do not
  catch: when \<open>setItem\<close> or \<open>removeItem\<close> throws, \<open>insertEntry\<close>, \<open>updateEntry\<close> and
  \<open>deleteEntry\<close> (for a stored id), \<open>clearAllEntries\<close>, \<open>updateSettings\<close> and
  \<open>resetSettings\<close> pass the error on to their caller.
\<close>

theorem storage_failure_handling:
  "((blocked ls \<or> zahnputz_entries ls = Absent \<or> zahnputz_entries ls = Unparsable)
       \<longrightarrow> getAllEntries ls = []) \<and>
   ((blocked ls \<or> zahnputz_settings ls = Absent \<or> zahnputz_settings ls = Unparsable)
       \<longrightarrow> getSettings ls = DEFAULT_SETTINGS) \<and>
   (quota_exceeded ls2 \<and> \<not> blocked ls2 \<longrightarrow>
       insertEntry ls2 entry uuid = Inl QuotaExceededError \<and>
       updateSettings ls2 settings_updates = Inl QuotaExceededError \<and>
       resetSettings ls2 = Inl QuotaExceededError \<and>
       (ident \<in> entry_id ` set (getAllEntries ls2) \<longrightarrow>
          updateEntry ls2 ident updates = Inl QuotaExceededError \<and>
          deleteEntry ls2 ident = Inl QuotaExceededError)) \<and>
   (blocked ls3 \<longrightarrow>
       insertEntry ls3 entry uuid = Inl SecurityError \<and>
       clearAllEntries ls3 = Inl SecurityError \<and>
       updateSettings ls3 settings_updates = Inl SecurityError \<and>
       resetSettings ls3 = Inl SecurityError)"
proof (intro conjI impI)
  assume "blocked ls \<or> zahnputz_entries ls = Absent \<or> zahnputz_entries ls = Unparsable"
  then show "getAllEntries ls = []"
    by (auto simp: getAllEntries_eq)
next
  assume "blocked ls \<or> zahnputz_settings ls = Absent \<or> zahnputz_settings ls = Unparsable"
  then show "getSettings ls = DEFAULT_SETTINGS"
    by (auto simp: getSettings_eq)
next
  assume "quota_exceeded ls2 \<and> \<not> blocked ls2"
  then show "insertEntry ls2 entry uuid = Inl QuotaExceededError"
    by (simp add: insertEntry_def setItem_entries_def Let_def)
next
  assume "quota_exceeded ls2 \<and> \<not> blocked ls2"
  then show "updateSettings ls2 settings_updates = Inl QuotaExceededError"
    by (simp add: updateSettings_def setItem_settings_def Let_def)
next
  assume "quota_exceeded ls2 \<and> \<not> blocked ls2"
  then show "resetSettings ls2 = Inl QuotaExceededError"
    by (simp add: resetSettings_def setItem_settings_def)
next
  assume q: "quota_exceeded ls2 \<and> \<not> blocked ls2" and m: "ident \<in> entry_id ` set (getAllEntries ls2)"
  from findIndex_mem [OF m] obtain i where
    "findIndex (\<lambda>entry. entry_id entry = ident) (getAllEntries ls2) = Some i" ..
  with q show "updateEntry ls2 ident updates = Inl QuotaExceededError"
    by (simp add: updateEntry_def setItem_entries_def Let_def)
next
  assume q: "quota_exceeded ls2 \<and> \<not> blocked ls2" and m: "ident \<in> entry_id ` set (getAllEntries ls2)"
  from filter_shorter [OF m] q show "deleteEntry ls2 ident = Inl QuotaExceededError"
    by (simp add: deleteEntry_def setItem_entries_def Let_def)
next
  assume "blocked ls3"
  then show "insertEntry ls3 entry uuid = Inl SecurityError"
    by (simp add: insertEntry_def setItem_entries_def Let_def)
next
  assume "blocked ls3"
  then show "clearAllEntries ls3 = Inl SecurityError"
    by (simp add: clearAllEntries_def removeItem_entries_def)
next
  assume "blocked ls3"
  then show "updateSettings ls3 settings_updates = Inl SecurityError"
    by (simp add: updateSettings_def setItem_settings_def Let_def)
next
  assume "blocked ls3"
  then show "resetSettings ls3 = Inl SecurityError"
    by (simp add: resetSettings_def setItem_settings_def)
qed

text \<open>
  Witness for C7: a store with unparsable items, a store whose quota is exceeded, and a
  blocked store.
\<close>

theorem storage_failure_handling_witness:
  "zahnputz_entries \<lparr>zahnputz_entries = Unparsable, zahnputz_settings = Unparsable, blocked = False, quota_exceeded = False\<rparr> = Unparsable \<and>
   zahnputz_settings \<lparr>zahnputz_entries = Unparsable, zahnputz_settings = Unparsable, blocked = False, quota_exceeded = False\<rparr> = Unparsable \<and>
   getAllEntries \<lparr>zahnputz_entries = Unparsable, zahnputz_settings = Unparsable, blocked = False, quota_exceeded = False\<rparr> = [] \<and>
   getSettings \<lparr>zahnputz_entries = Unparsable, zahnputz_settings = Unparsable, blocked = False, quota_exceeded = False\<rparr> = DEFAULT_SETTINGS \<and>
   quota_exceeded
     \<lparr>zahnputz_entries = Parsed [\<lparr>entry_id = ''a'', date = 3, timestamp = 10, confirmed = False, reminderTime = None\<rparr>],
      zahnputz_settings = Absent, blocked = False, quota_exceeded = True\<rparr> \<and>
   \<not> blocked
     \<lparr>zahnputz_entries = Parsed [\<lparr>entry_id = ''a'', date = 3, timestamp = 10, confirmed = False, reminderTime = None\<rparr>],
      zahnputz_settings = Absent, blocked = False, quota_exceeded = True\<rparr> \<and>
   ''a'' \<in> entry_id ` set (getAllEntries
     \<lparr>zahnputz_entries = Parsed [\<lparr>entry_id = ''a'', date = 3, timestamp = 10, confirmed = False, reminderTime = None\<rparr>],
      zahnputz_settings = Absent, blocked = False, quota_exceeded = True\<rparr>) \<and>
   updateEntry
     \<lparr>zahnputz_entries = Parsed [\<lparr>entry_id = ''a'', date = 3, timestamp = 10, confirmed = False, reminderTime = None\<rparr>],
      zahnputz_settings = Absent, blocked = False, quota_exceeded = True\<rparr>
     ''a'' \<lparr>p_entry_id = None, p_date = None, p_timestamp = None, p_confirmed = Some True, p_reminderTime = None\<rparr>
     = Inl QuotaExceededError \<and>
   deleteEntry
     \<lparr>zahnputz_entries = Parsed [\<lparr>entry_id = ''a'', date = 3, timestamp = 10, confirmed = False, reminderTime = None\<rparr>],
      zahnputz_settings = Absent, blocked = False, quota_exceeded = True\<rparr>
     ''a'' = Inl QuotaExceededError \<and>
   blocked \<lparr>zahnputz_entries = Absent, zahnputz_settings = Absent, blocked = True, quota_exceeded = False\<rparr> \<and>
   clearAllEntries \<lparr>zahnputz_entries = Absent, zahnputz_settings = Absent, blocked = True, quota_exceeded = False\<rparr>
     = Inl SecurityError"
proof -
  let ?s1 = "\<lparr>zahnputz_entries = Unparsable, zahnputz_settings = Unparsable, blocked = False, quota_exceeded = False\<rparr>"
  let ?s2 = "\<lparr>zahnputz_entries = Parsed [\<lparr>entry_id = ''a'', date = 3, timestamp = 10, confirmed = False, reminderTime = None\<rparr>],
      zahnputz_settings = Absent, blocked = False, quota_exceeded = True\<rparr>"
  let ?s3 = "\<lparr>zahnputz_entries = Absent, zahnputz_settings = Absent, blocked = True, quota_exceeded = False\<rparr>"
  let ?u = "\<lparr>p_entry_id = None, p_date = None, p_timestamp = None, p_confirmed = Some True, p_reminderTime = None\<rparr>"
  have h1: "zahnputz_entries ?s1 = Unparsable" "zahnputz_settings ?s1 = Unparsable"
    by simp_all
  have h2: "quota_exceeded ?s2" "\<not> blocked ?s2"
    by simp_all
  have h3: "''a'' \<in> entry_id ` set (getAllEntries ?s2)"
    by (simp add: eval_store)
  have h4: "blocked ?s3"
    by simp
  from storage_failure_handling [of ?s1 ?s2 _ _ _ "''a''" ?u ?s3] h1 h2 h3 h4
  have "getAllEntries ?s1 = []" "getSettings ?s1 = DEFAULT_SETTINGS"
       "updateEntry ?s2 ''a'' ?u = Inl QuotaExceededError"
       "deleteEntry ?s2 ''a'' = Inl QuotaExceededError"
       "clearAllEntries ?s3 = Inl SecurityError"
    by blast+
  with h1 h2 h3 h4 show ?thesis by blast
qed

section \<open>Properties of the time formats\<close>

subsection \<open>C10: twelve-hour round trip\<close>




lemma digit_cases: "j < 10 \<Longrightarrow> j = 0 \<or> j = 1 \<or> j = 2 \<or> j = 3 \<or> j = 4 \<or> j = 5 \<or> j = 6 \<or> j = 7 \<or> j = 8 \<or> j = (9::nat)"
  by arith

lemma of_char_digit_char: "j < 10 \<Longrightarrow> of_char (digit_char j) = (48 + j :: nat)"
  using digit_cases [of j] by (auto simp: digit_char_def)

lemma is_digit_digit_char: "is_digit (digit_char j)"
proof -
  have "j mod 10 < length ''0123456789''" by simp
  then have "''0123456789'' ! (j mod 10) \<in> set ''0123456789''"
    by (rule nth_mem)
  then show ?thesis by (simp only: is_digit_def digit_char_def)
qed

lemma digit_val_digit_char: "j < 10 \<Longrightarrow> digit_val (digit_char j) = j"
  by (simp add: digit_val_def of_char_digit_char)

lemma digit_char_less: "a < 10 \<Longrightarrow> b < 10 \<Longrightarrow> digit_char a < digit_char b \<longleftrightarrow> a < b"
  by (simp add: less_char_def of_char_digit_char)

lemma digit_char_eq: "a < 10 \<Longrightarrow> b < 10 \<Longrightarrow> digit_char a = digit_char b \<longleftrightarrow> a = b"
  by (metis digit_val_digit_char)

lemma digit_char_not_colon: "digit_char j \<noteq> CHR '':''"
  using is_digit_digit_char [of j] by (auto simp: is_digit_def)

lemma pad2: "n < 100 \<Longrightarrow> padStart 2 CHR ''0'' (toString n) = [digit_char (n div 10), digit_char (n mod 10)]"
proof (cases "n < 10")
  case True
  then show ?thesis by (simp add: padStart_def digit_char_def toString.simps)
next
  case False
  assume "n < 100"
  with False have "n div 10 < 10" by simp
  with False show ?thesis
    by (simp add: padStart_def toString.simps [of n] toString.simps [of "n div 10"])
qed


lemma Number_pad2: "n < 100 \<Longrightarrow> Number [digit_char (n div 10), digit_char (n mod 10)] = Some n"
proof -
  assume "n < 100"
  then have "n div 10 < 10" by simp
  then show ?thesis
    by (simp add: Number_def decimal_def is_digit_digit_char digit_val_digit_char)
qed

lemma split_time24:
  "h < 100 \<Longrightarrow> m < 100 \<Longrightarrow>
     split CHR '':'' (time24 h m) =
       [[digit_char (h div 10), digit_char (h mod 10)], [digit_char (m div 10), digit_char (m mod 10)]]"
  by (simp add: time24_def pad2 digit_char_not_colon)

lemma convertTo12Hour_time24:
  assumes "h < 24" "m < 60"
  shows "convertTo12Hour (time24 h m) =
           Inr (toString (if h = 0 then 12 else if h > 12 then h - 12 else h) @ '':'' @
                [digit_char (m div 10), digit_char (m mod 10)] @ '' '' @
                (if h \<ge> 12 then ''PM'' else ''AM''))"
proof -
  from assms have "h < 100" "m < 100" by simp_all
  then have "map Number (split CHR '':'' (time24 h m)) = [Some h, Some m]"
    by (simp add: split_time24 Number_pad2)
  moreover have "padStart 2 CHR ''0'' (toString m) = [digit_char (m div 10), digit_char (m mod 10)]"
    using \<open>m < 100\<close> by (rule pad2)
  ultimately show ?thesis
    by (simp add: convertTo12Hour_def num_toString_def Let_def)
qed

lemma hour12_cases:
  "h < 24 \<Longrightarrow> (if h = 0 then 12 else if h > 12 then h - 12 else h) \<in> {1..(12::nat)}"
  by auto

lemma k_cases: "k \<in> {1..(12::nat)} \<Longrightarrow>
   k = 1 \<or> k = 2 \<or> k = 3 \<or> k = 4 \<or> k = 5 \<or> k = 6 \<or> k = 7 \<or> k = 8 \<or> k = 9 \<or> k = 10 \<or> k = 11 \<or> k = 12"
  by (simp only: atLeastAtMost_iff) arith

lemmas eval_time = convertTo24Hour_def match_time12_def parseInt_def toUpperCase_def Number_def
  decimal_def is_digit_def is_space_def digit_val_def num_toString_def padStart_def digit_char_def
  toString.simps

lemma convertTo24Hour_AM:
  assumes "k \<in> {1..(12::nat)}" "is_digit a" "is_digit b"
  shows "convertTo24Hour (toString k @ '':'' @ [a, b] @ '' AM'') =
           padStart 2 CHR ''0'' (toString (if k = 12 then 0 else k)) @ '':'' @ [a, b]"
  using k_cases [OF assms(1)] assms(2,3)
  by (elim disjE) (simp_all add: eval_time)

lemma convertTo24Hour_PM:
  assumes "k \<in> {1..(12::nat)}" "is_digit a" "is_digit b"
  shows "convertTo24Hour (toString k @ '':'' @ [a, b] @ '' PM'') =
           padStart 2 CHR ''0'' (toString (if k = 12 then 12 else k + 12)) @ '':'' @ [a, b]"
  using k_cases [OF assms(1)] assms(2,3)
  by (elim disjE) (simp_all add: eval_time)

text \<open>
  Claim C10: for every hour below 24 and minute below 60, \<open>convertTo12Hour\<close> accepts the
  zero-padded \<open>HH:MM\<close> string and \<open>convertTo24Hour\<close> maps its result back to the same
  string.
\<close>

theorem convert_12h_24h_roundtrip:
  assumes "h < 24" "m < 60"
  shows "\<exists>time12. convertTo12Hour (time24 h m) = Inr time12 \<and> convertTo24Hour time12 = time24 h m"
proof -
  let ?k = "if h = 0 then 12 else if h > 12 then h - 12 else h"
  let ?a = "digit_char (m div 10)" and ?b = "digit_char (m mod 10)"
  have k: "?k \<in> {1..(12::nat)}" using assms(1) by (rule hour12_cases)
  have m: "padStart 2 CHR ''0'' (toString m) = [?a, ?b]"
    using assms(2) by (simp add: pad2)
  have c12: "convertTo12Hour (time24 h m) =
           Inr (toString ?k @ '':'' @ [?a, ?b] @ '' '' @ (if h \<ge> 12 then ''PM'' else ''AM''))"
    using assms by (rule convertTo12Hour_time24)
  show ?thesis
  proof (cases "h \<ge> 12")
    case True
    then have h': "(if ?k = 12 then 12 else ?k + 12) = h" using assms(1) by auto
    have "convertTo24Hour (toString ?k @ '':'' @ [?a, ?b] @ '' PM'') =
            padStart 2 CHR ''0'' (toString (if ?k = 12 then 12 else ?k + 12)) @ '':'' @ [?a, ?b]"
      using k by (rule convertTo24Hour_PM) (rule is_digit_digit_char)+
    also have "\<dots> = time24 h m"
      by (simp only: h' m time24_def)
    finally show ?thesis using c12 True by simp
  next
    case False
    then have h': "(if ?k = 12 then 0 else ?k) = h" by auto
    have "convertTo24Hour (toString ?k @ '':'' @ [?a, ?b] @ '' AM'') =
            padStart 2 CHR ''0'' (toString (if ?k = 12 then 0 else ?k)) @ '':'' @ [?a, ?b]"
      using k by (rule convertTo24Hour_AM) (rule is_digit_digit_char)+
    also have "\<dots> = time24 h m"
      by (simp only: h' m time24_def)
    finally show ?thesis using c12 False by simp
  qed
qed

text \<open>
  Witness for C10: 13:45 becomes 1:45 PM and comes back as 13:45.
\<close>

theorem convert_12h_24h_roundtrip_witness:
  "(13::nat) < 24 \<and> (45::nat) < 60 \<and> convertTo12Hour (time24 13 45) = Inr ''1:45 PM'' \<and>
   convertTo24Hour ''1:45 PM'' = time24 13 45 \<and> time24 13 45 = ''13:45''"
proof -
  have e: "convertTo12Hour (time24 13 45) = Inr ''1:45 PM''"
    by (simp add: convertTo12Hour_def time24_def eval_time)
  have "(13::nat) < 24" "(45::nat) < 60" by simp_all
  from convert_12h_24h_roundtrip [OF this] obtain t where
    "convertTo12Hour (time24 13 45) = Inr t" "convertTo24Hour t = time24 13 45"
    by blast
  with e have "convertTo24Hour ''1:45 PM'' = time24 13 45" by simp
  moreover have "time24 13 45 = ''13:45''"
    by (simp add: time24_def eval_time)
  ultimately show ?thesis using e by simp
qed

section \<open>Properties of the reminders\<close>

subsection \<open>C8: the next reminder\<close>

lemma time24_chars:
  "h < 100 \<Longrightarrow> m < 100 \<Longrightarrow>
     time24 h m = [digit_char (h div 10), digit_char (h mod 10), CHR '':'',
                   digit_char (m div 10), digit_char (m mod 10)]"
  by (simp add: time24_def pad2)

lemma two_digits_less:
  fixes a b :: nat
  shows "a < b \<longleftrightarrow> a div 10 < b div 10 \<or> (a div 10 = b div 10 \<and> a mod 10 < b mod 10)"
proof -
  have a: "a = 10 * (a div 10) + a mod 10" and b: "b = 10 * (b div 10) + b mod 10"
    by simp_all
  have "a mod 10 < 10" "b mod 10 < 10" by simp_all
  then have "10 * (a div 10) + a mod 10 < 10 * (b div 10) + b mod 10 \<longleftrightarrow>
        a div 10 < b div 10 \<or> (a div 10 = b div 10 \<and> a mod 10 < b mod 10)"
    by linarith
  with a b show ?thesis by simp
qed

lemma two_digits_eq:
  fixes a b :: nat
  shows "a = b \<longleftrightarrow> a div 10 = b div 10 \<and> a mod 10 = b mod 10"
  by (metis div_mult_mod_eq)

lemma two_digit_string_le:
  assumes "a < 100" "b < 100"
  shows "digit_char (a div 10) # digit_char (a mod 10) # r \<le>
         digit_char (b div 10) # digit_char (b mod 10) # r' \<longleftrightarrow> a < b \<or> (a = b \<and> r \<le> r')"
proof -
  have d: "a div 10 < 10" "b div 10 < 10" "a mod 10 < 10" "b mod 10 < 10"
    using assms by simp_all
  have "digit_char (a div 10) # digit_char (a mod 10) # r \<le>
         digit_char (b div 10) # digit_char (b mod 10) # r' \<longleftrightarrow>
        a div 10 < b div 10 \<or> (a div 10 = b div 10 \<and>
          (a mod 10 < b mod 10 \<or> (a mod 10 = b mod 10 \<and> r \<le> r')))"
    using d by (simp add: digit_char_less digit_char_eq)
  also have "\<dots> \<longleftrightarrow> a < b \<or> (a = b \<and> r \<le> r')"
    using two_digits_less [of a b] two_digits_eq [of a b] by blast
  finally show ?thesis .
qed

lemma time24_le:
  assumes "h < 100" "m < 100" "h' < 100" "m' < 100"
  shows "time24 h m \<le> time24 h' m' \<longleftrightarrow> h < h' \<or> (h = h' \<and> m \<le> m')"
proof -
  let ?M = "[digit_char (m div 10), digit_char (m mod 10)]"
  let ?M' = "[digit_char (m' div 10), digit_char (m' mod 10)]"
  have "time24 h m \<le> time24 h' m' \<longleftrightarrow> h < h' \<or> (h = h' \<and> CHR '':'' # ?M \<le> CHR '':'' # ?M')"
    by (simp only: time24_chars [OF assms(1,2)] time24_chars [OF assms(3,4)]
          two_digit_string_le [OF assms(1) assms(3)])
  also have "CHR '':'' # ?M \<le> CHR '':'' # ?M' \<longleftrightarrow> ?M \<le> ?M'"
    by simp
  also have "?M \<le> ?M' \<longleftrightarrow> m < m' \<or> (m = m' \<and> ([]::string) \<le> [])"
    by (rule two_digit_string_le [OF assms(2) assms(4)])
  also have "\<dots> \<longleftrightarrow> m \<le> m'"
    by auto
  finally show ?thesis .
qed

lemma parse_time_time24:
  "h < 100 \<Longrightarrow> m < 100 \<Longrightarrow> parse_time (time24 h m) = (Some h, Some m)"
  by (simp add: parse_time_def split_time24 Number_pad2)


lemma next_today_sorted:
  assumes "\<forall>s\<in>set xs. (case parse_time s of (hours, minutes) \<Rightarrow> setHours clk today hours minutes)
                          = Date (today + g s)"
      and "sorted (map g xs)"
  shows "next_today clk today now xs =
           (if \<exists>s\<in>set xs. now < today + g s
            then Some (Date (Min {t. \<exists>s\<in>set xs. t = today + g s \<and> now < t}))
            else None)"
  using assms
proof (induction xs)
  case Nil
  then show ?case by simp
next
  case (Cons x xs)
  obtain hours minutes where p: "parse_time x = (hours, minutes)"
    by force
  with Cons.prems(1) have x: "setHours clk today hours minutes = Date (today + g x)"
    by simp
  from Cons.prems(2) have le: "\<forall>s\<in>set xs. g x \<le> g s" and srt: "sorted (map g xs)"
    by simp_all
  from Cons.prems(1) have rest: "\<forall>s\<in>set xs. (case parse_time s of (hours, minutes) \<Rightarrow> setHours clk today hours minutes)
                          = Date (today + g s)"
    by simp
  note IH = Cons.IH [OF rest srt]
  show ?case
  proof (cases "now < today + g x")
    case True
    have fin: "finite {t. \<exists>s\<in>set (x # xs). t = today + g s \<and> now < t}"
      by simp
    have "Min {t. \<exists>s\<in>set (x # xs). t = today + g s \<and> now < t} = today + g x"
    proof (rule Min_eqI [OF fin])
      fix y assume "y \<in> {t. \<exists>s\<in>set (x # xs). t = today + g s \<and> now < t}"
      then show "today + g x \<le> y" using le by auto
    next
      show "today + g x \<in> {t. \<exists>s\<in>set (x # xs). t = today + g s \<and> now < t}"
        using True by auto
    qed
    moreover have "next_today clk today now (x # xs) = Some (Date (today + g x))"
      using x True by (simp add: Let_def p)
    ultimately show ?thesis using True by simp
  next
    case False
    then have same: "{t. \<exists>s\<in>set (x # xs). t = today + g s \<and> now < t} =
                     {t. \<exists>s\<in>set xs. t = today + g s \<and> now < t}"
      by auto
    have "next_today clk today now (x # xs) = next_today clk today now xs"
      using x False by (simp add: Let_def p)
    with IH False show ?thesis
      by (simp only: same) simp
  qed
qed

lemma hd_sorted_Min:
  assumes "xs \<noteq> []" "sorted (map g xs)"
  shows "g (hd xs) = Min (g ` set xs)"
proof -
  from assms(1) obtain x rest where xs: "xs = x # rest" by (cases xs) auto
  with assms(2) have "\<forall>s\<in>set rest. g x \<le> g s" by simp
  then have "Min (g ` set (x # rest)) = g x"
    by (intro Min_eqI) auto
  with xs show ?thesis by simp
qed

text \<open>
  In a zone whose offset never changes, local midnight, \<open>setHours\<close> on a local midnight
  and the step to the next local day are plain arithmetic on the instant.
\<close>

lemma LocalTZA_fixed_zone:
  assumes "\<And>t. dst_utc clk t = b" and "\<And>t. dst_local clk t = b"
  shows "LocalTZA clk t isUTC = tz_minutes clk * 60000 + (if b then 3600000 else 0)"
  by (simp add: LocalTZA_def assms)

lemma local_midnight_fixed_zone:
  assumes "\<And>t. dst_utc clk t = b" and "\<And>t. dst_local clk t = b"
  shows "local_midnight clk =
           localDate clk * MS_PER_DAY - (tz_minutes clk * 60000 + (if b then 3600000 else 0))"
  by (simp only: local_midnight_def UTC_def LocalTZA_fixed_zone [of clk b, OF assms])

lemma setHours_fixed_zone:
  assumes "\<And>t. dst_utc clk t = b" and "\<And>t. dst_local clk t = b"
      and "off = tz_minutes clk * 60000 + (if b then 3600000 else 0)"
  shows "setHours clk (k * MS_PER_DAY - off) (Some h) (Some m) =
           Date (k * MS_PER_DAY - off + int h * 3600000 + int m * 60000)"
proof -
  have "LocalTime clk (k * MS_PER_DAY - off) = k * MS_PER_DAY"
    by (simp only: LocalTime_def LocalTZA_fixed_zone [of clk b, OF assms(1,2)] assms(3))
  moreover have "k * MS_PER_DAY div MS_PER_DAY = k"
    by (simp add: MS_PER_DAY_def)
  ultimately show ?thesis
    by (simp add: setHours_def UTC_def LocalTZA_fixed_zone [of clk b, OF assms(1,2)] assms(3))
qed

lemma setDate_add_fixed_zone:
  assumes "\<And>t. dst_utc clk t = b" and "\<And>t. dst_local clk t = b"
  shows "setDate_add clk t n = t + n * MS_PER_DAY"
  by (simp add: setDate_add_def UTC_def LocalTime_def LocalTZA_fixed_zone [of clk b, OF assms])

text \<open>
  What the claim about \<open>calculateNextReminder\<close> asks for holds on zero-padded \<open>HH:MM\<close>
  times (hour below 24, minute below 60) in a zone whose offset never changes: the result
  is the earliest configured time of today that is strictly later than now, or, when none
  is, the earliest configured time of the following day.
\<close>

lemma calculateNextReminder_padded_fixed_zone:
  assumes zone: "\<And>t. dst_utc clk t = b" "\<And>t. dst_local clk t = b"
      and ne: "hms \<noteq> []"
      and valid: "\<forall>hm\<in>set hms. fst hm < 24 \<and> snd hm < 60"
      and ts: "reminderTimes settings = map (\<lambda>hm. time24 (fst hm) (snd hm)) hms"
  shows "calculateNextReminder settings clk =
        Some (Date (if \<exists>hm\<in>set hms. now_ms clk < at_time (local_midnight clk) hm
                    then Min {t. \<exists>hm\<in>set hms. t = at_time (local_midnight clk) hm \<and> now_ms clk < t}
                    else Min {t. \<exists>hm\<in>set hms. t = at_time (local_midnight clk + MS_PER_DAY) hm}))"
proof -
  let ?ts = "reminderTimes settings"
  let ?xs = "sort ?ts"
  let ?g = "\<lambda>s. (case parse_time s of
                    (Some h, Some m) \<Rightarrow> int h * 3600000 + int m * 60000
                  | _ \<Rightarrow> 0)"
  let ?today = "local_midnight clk"
  let ?now = "now_ms clk"
  define off where "off = tz_minutes clk * 60000 + (if b then 3600000 else 0)"
  have today: "?today = localDate clk * MS_PER_DAY - off"
    unfolding off_def by (rule local_midnight_fixed_zone [OF zone])
  have tomorrow_eq: "setDate_add clk ?today 1 = ?today + MS_PER_DAY"
    by (simp add: setDate_add_fixed_zone [of clk b, OF zone])
  have tomorrow_day: "?today + MS_PER_DAY = (localDate clk + 1) * MS_PER_DAY - off"
    by (simp add: today algebra_simps)
  have set_xs: "set ?xs = (\<lambda>hm. time24 (fst hm) (snd hm)) ` set hms"
    by (simp add: ts)
  have parse: "parse_time (time24 (fst hm) (snd hm)) = (Some (fst hm), Some (snd hm))"
    if "hm \<in> set hms" for hm
  proof -
    from valid that have "fst hm < 100" "snd hm < 100" by fastforce+
    then show ?thesis by (rule parse_time_time24)
  qed
  have g: "?g (time24 (fst hm) (snd hm)) = int (fst hm) * 3600000 + int (snd hm) * 60000"
    if "hm \<in> set hms" for hm
    by (simp add: parse [OF that])
  have at: "d + ?g (time24 (fst hm) (snd hm)) = at_time d hm" if "hm \<in> set hms" for hm d
    using g [OF that] by (simp add: at_time_def)
  have pt_day: "\<forall>s\<in>set ?xs. (case parse_time s of (hours, minutes) \<Rightarrow>
                    setHours clk (k * MS_PER_DAY - off) hours minutes)
                          = Date (k * MS_PER_DAY - off + ?g s)" for k
  proof
    fix s assume "s \<in> set ?xs"
    with set_xs obtain hm where hm: "hm \<in> set hms" "s = time24 (fst hm) (snd hm)" by auto
    then have p: "parse_time s = (Some (fst hm), Some (snd hm))"
      by (simp add: parse)
    show "(case parse_time s of (hours, minutes) \<Rightarrow> setHours clk (k * MS_PER_DAY - off) hours minutes)
            = Date (k * MS_PER_DAY - off + ?g s)"
      using setHours_fixed_zone [of clk b off k "fst hm" "snd hm", OF zone off_def]
      by (simp add: p)
  qed
  have pt: "\<forall>s\<in>set ?xs. (case parse_time s of (hours, minutes) \<Rightarrow> setHours clk ?today hours minutes)
                          = Date (?today + ?g s)"
    using pt_day [of "localDate clk"] by (simp only: today)
  have pt_tomorrow: "\<forall>s\<in>set ?xs. (case parse_time s of (hours, minutes) \<Rightarrow>
                         setHours clk (?today + MS_PER_DAY) hours minutes)
                          = Date (?today + MS_PER_DAY + ?g s)"
    using pt_day [of "localDate clk + 1"] by (simp only: tomorrow_day)
  have mono: "?g s \<le> ?g s'" if "s \<in> set ?xs" "s' \<in> set ?xs" "s \<le> s'" for s s'
  proof -
    from that set_xs obtain hm hm' where
      hm: "hm \<in> set hms" "s = time24 (fst hm) (snd hm)"
      and hm': "hm' \<in> set hms" "s' = time24 (fst hm') (snd hm')"
      by auto
    with valid have b: "fst hm < 24" "snd hm < 60" "fst hm' < 24" "snd hm' < 60" by auto
    then have "fst hm < 100" "snd hm < 100" "fst hm' < 100" "snd hm' < 100" by simp_all
    from time24_le [OF this] that(3) hm(2) hm'(2)
    have "fst hm < fst hm' \<or> (fst hm = fst hm' \<and> snd hm \<le> snd hm')"
      by simp
    then have "int (fst hm) * 3600000 + int (snd hm) * 60000
                 \<le> int (fst hm') * 3600000 + int (snd hm') * 60000"
      using b by auto
    then show ?thesis
      using g [OF hm(1)] g [OF hm'(1)] hm(2) hm'(2) by simp
  qed
  have "sorted_wrt (\<lambda>s s'. ?g s \<le> ?g s') ?xs"
    by (rule sorted_wrt_mono_rel [of ?xs "(\<le>)"]) (use mono in auto)
  then have srt: "sorted (map ?g ?xs)"
    by (simp only: sorted_map)
  have xs_ne: "?xs \<noteq> []"
    using ne ts by (metis length_sort length_0_conv length_map)
  have today_set: "{t. \<exists>s\<in>set ?xs. t = d + ?g s \<and> P t} = {t. \<exists>hm\<in>set hms. t = at_time d hm \<and> P t}" for d P
    using set_xs at by auto
  have ex_iff: "(\<exists>s\<in>set ?xs. ?now < ?today + ?g s) \<longleftrightarrow> (\<exists>hm\<in>set hms. ?now < at_time ?today hm)"
    using set_xs at by auto
  have nt: "next_today clk ?today ?now ?xs =
           (if \<exists>hm\<in>set hms. ?now < at_time ?today hm
            then Some (Date (Min {t. \<exists>hm\<in>set hms. t = at_time ?today hm \<and> ?now < t}))
            else None)"
    using next_today_sorted [of ?xs clk ?today ?g ?now, OF pt srt]
    by (simp only: today_set ex_iff)
  have hd_in: "hd ?xs \<in> set ?xs" using xs_ne by (rule hd_in_set)
  have min_tomorrow: "Min {t. \<exists>hm\<in>set hms. t = at_time (?today + MS_PER_DAY) hm}
                      = ?today + MS_PER_DAY + ?g (hd ?xs)"
  proof (rule Min_eqI)
    show "finite {t. \<exists>hm\<in>set hms. t = at_time (?today + MS_PER_DAY) hm}"
      by simp
  next
    fix y assume "y \<in> {t. \<exists>hm\<in>set hms. t = at_time (?today + MS_PER_DAY) hm}"
    then obtain hm where hm: "hm \<in> set hms" "y = at_time (?today + MS_PER_DAY) hm"
      by blast
    from hm(1) set_xs have "time24 (fst hm) (snd hm) \<in> set ?xs" by blast
    then have "?g (time24 (fst hm) (snd hm)) \<in> ?g ` set ?xs" by (rule imageI)
    then have "Min (?g ` set ?xs) \<le> ?g (time24 (fst hm) (snd hm))"
      by (intro Min_le) simp_all
    then have "?g (hd ?xs) \<le> ?g (time24 (fst hm) (snd hm))"
      by (simp only: hd_sorted_Min [OF xs_ne srt])
    then have "?today + MS_PER_DAY + ?g (hd ?xs) \<le> ?today + MS_PER_DAY + ?g (time24 (fst hm) (snd hm))"
      by simp
    then show "?today + MS_PER_DAY + ?g (hd ?xs) \<le> y"
      by (simp only: hm(2) at [OF hm(1)])
  next
    from hd_in set_xs obtain hm where hm: "hm \<in> set hms" "hd ?xs = time24 (fst hm) (snd hm)"
      by blast
    have "?today + MS_PER_DAY + ?g (hd ?xs) = at_time (?today + MS_PER_DAY) hm"
      by (simp only: hm(2) at [OF hm(1)])
    with hm(1) show "?today + MS_PER_DAY + ?g (hd ?xs) \<in> {t. \<exists>hm\<in>set hms. t = at_time (?today + MS_PER_DAY) hm}"
      by blast
  qed
  have tomorrow: "(case parse_time (hd ?xs) of (hours, minutes) \<Rightarrow>
                     setHours clk (setDate_add clk ?today 1) hours minutes)
                    = Date (?today + MS_PER_DAY + ?g (hd ?xs))"
    using pt_tomorrow hd_in by (simp only: tomorrow_eq)
  show ?thesis
  proof (cases "\<exists>hm\<in>set hms. ?now < at_time ?today hm")
    case True
    with nt ne ts show ?thesis
      by (simp add: calculateNextReminder_def Let_def)
  next
    case False
    with nt have "next_today clk ?today ?now ?xs = None" by simp
    with False ne ts tomorrow min_tomorrow show ?thesis
      by (simp add: calculateNextReminder_def Let_def split: prod.splits)
  qed
qed

text \<open>
  Where the offset changes, the times are wall-clock times. Berlin, 2024-03-30 at 21:00
  local time, the evening before the clocks go forward, with the times 08:00 and 20:00:
  both have passed, and the next reminder is 08:00 local summer time of the following
  day, 06:00 UTC, which is 32 hours after the local midnight of today less the hour
  skipped.
\<close>

lemma calculateNextReminder_offset_change_example:
  "calculateNextReminder (DEFAULT_SETTINGS\<lparr>reminderTimes := [''08:00'', ''20:00'']\<rparr>)
       \<lparr>now_ms = 1711828800000, tz_minutes = 60,
        dst_utc = (\<lambda>t. 1711846800000 \<le> t), dst_local = (\<lambda>t. 1711854000000 \<le> t)\<rparr>
     = Some (Date 1711864800000) \<and>
   local_midnight \<lparr>now_ms = 1711828800000, tz_minutes = 60,
        dst_utc = (\<lambda>t. 1711846800000 \<le> t), dst_local = (\<lambda>t. 1711854000000 \<le> t)\<rparr> = 1711753200000 \<and>
   (1711864800000 :: int) = 1711753200000 + 86400000 + 8 * 3600000 - 3600000"
  by code_simp

text \<open>
  Claim C8, failing input: the times \<open>"9:00"\<close> and \<open>"10:00"\<close>, hours written without a
  leading zero as the settings form's own pattern accepts them, at 08:00 of day 0 in a
  zone at UTC whose offset never changes. The default \<open>sort()\<close> orders the strings, so
  \<open>"10:00"\<close> comes before \<open>"9:00"\<close>, and the loop returns the first time later than now
  that it meets: the next reminder is 10:00 (instant 36000000), although the configured
  time 9:00 (instant 32400000) is earlier and still ahead of now (instant 28800000).
\<close>

theorem calculateNextReminder_unpadded_failing_input:
  "calculateNextReminder (DEFAULT_SETTINGS\<lparr>reminderTimes := [''9:00'', ''10:00'']\<rparr>)
       \<lparr>now_ms = 28800000, tz_minutes = 0, dst_utc = (\<lambda>t. False), dst_local = (\<lambda>t. False)\<rparr> = Some (Date 36000000) \<and>
   sort [''9:00'', ''10:00''] = [''10:00'', ''9:00''] \<and>
   (case parse_time ''9:00'' of
      (hours, minutes) \<Rightarrow> setHours \<lparr>now_ms = 28800000, tz_minutes = 0, dst_utc = (\<lambda>t. False), dst_local = (\<lambda>t. False)\<rparr>
                             (local_midnight \<lparr>now_ms = 28800000, tz_minutes = 0, dst_utc = (\<lambda>t. False), dst_local = (\<lambda>t. False)\<rparr>) hours minutes)
     = Date 32400000 \<and>
   now_ms \<lparr>now_ms = 28800000, tz_minutes = 0, dst_utc = (\<lambda>t. False), dst_local = (\<lambda>t. False)\<rparr> < 32400000 \<and> (32400000::int) < 36000000"
  by code_simp

end
